theory Spec2Isabelle
  imports Complex_Main "HOL-Library.Log_Nat"
begin

section \<open>Python values, exceptions and the operations the source applies to them\<close>

text \<open>
  The functions of \<^verbatim>\<open>resume_extractor.py\<close> and \<^verbatim>\<open>advanced_features.py\<close> pass
  JSON-like dictionaries around. A value is one of Python's \<^verbatim>\<open>None\<close>, \<^verbatim>\<open>bool\<close>,
  \<^verbatim>\<open>int\<close>, \<^verbatim>\<open>float\<close>, \<^verbatim>\<open>str\<close>, \<^verbatim>\<open>list\<close> and \<^verbatim>\<open>dict\<close> (string keys, in
  insertion order; a lookup reads the first binding of a key). A float is kept as the
  rational number it stands for. Strings are lists of 8-bit characters, read as the code
  points 0..255.
\<close>

datatype pyval =
    PNone
  | PBool bool
  | PInt int
  | PFloat rat
  | PStr string
  | PList "pyval list"
  | PDict "(string \<times> pyval) list"

datatype exn_class =
    AttributeError | TypeError | ValueError | JSONDecodeError | UnboundLocalError
  | ValidationError | OtherException

text \<open>An exception object: its class and the message \<^verbatim>\<open>str(e)\<close> gives.\<close>

datatype exn = Exn exn_class string

fun exn_cls :: "exn \<Rightarrow> exn_class" where
  "exn_cls (Exn c m) = c"

fun str_exn :: "exn \<Rightarrow> string" where
  "str_exn (Exn c m) = m"

text \<open>Sequencing of steps that may raise: the first exception ends the computation.\<close>

definition bind :: "exn + 'a \<Rightarrow> ('a \<Rightarrow> exn + 'b) \<Rightarrow> exn + 'b" where
  "bind m f = (case m of Inl e \<Rightarrow> Inl e | Inr x \<Rightarrow> f x)"

text \<open>A text between single quotes, as Python's messages print type names.\<close>

definition quoted :: "string \<Rightarrow> string" where
  "quoted s = CHR 0x27 # s @ [CHR 0x27]"

fun type_name :: "pyval \<Rightarrow> string" where
  "type_name PNone = ''NoneType''"
| "type_name (PBool b) = ''bool''"
| "type_name (PInt i) = ''int''"
| "type_name (PFloat x) = ''float''"
| "type_name (PStr s) = ''str''"
| "type_name (PList xs) = ''list''"
| "type_name (PDict kvs) = ''dict''"

text \<open>Truth value testing (\<^verbatim>\<open>if x:\<close>, \<^verbatim>\<open>not x\<close>, \<^verbatim>\<open>x and y\<close>).\<close>

fun truthy :: "pyval \<Rightarrow> bool" where
  "truthy PNone = False"
| "truthy (PBool b) = b"
| "truthy (PInt i) = (i \<noteq> 0)"
| "truthy (PFloat x) = (x \<noteq> 0)"
| "truthy (PStr s) = (s \<noteq> [])"
| "truthy (PList xs) = (xs \<noteq> [])"
| "truthy (PDict kvs) = (kvs \<noteq> [])"

text \<open>\<^verbatim>\<open>obj.get(key, default)\<close>: only a dict has the method.\<close>

fun dict_get :: "pyval \<Rightarrow> string \<Rightarrow> pyval \<Rightarrow> exn + pyval" where
  "dict_get (PDict kvs) k dflt = Inr (case map_of kvs k of None \<Rightarrow> dflt | Some v \<Rightarrow> v)"
| "dict_get v k dflt =
     Inl (Exn AttributeError
       (quoted (type_name v) @ '' object has no attribute '' @ quoted ''get''))"

text \<open>\<^verbatim>\<open>len(obj)\<close>.\<close>

fun py_len :: "pyval \<Rightarrow> exn + nat" where
  "py_len (PStr s) = Inr (length s)"
| "py_len (PList xs) = Inr (length xs)"
| "py_len (PDict kvs) = Inr (length kvs)"
| "py_len v =
     Inl (Exn TypeError (''object of type '' @ quoted (type_name v) @ '' has no len()''))"

text \<open>
  \<^verbatim>\<open>for x in obj\<close>: a list yields its items, a string its characters, a dict its
  keys; nothing else is iterable.
\<close>

fun py_iter :: "pyval \<Rightarrow> exn + pyval list" where
  "py_iter (PList xs) = Inr xs"
| "py_iter (PStr s) = Inr (map (\<lambda>c. PStr [c]) s)"
| "py_iter (PDict kvs) = Inr (map (\<lambda>kv. PStr (fst kv)) kvs)"
| "py_iter v = Inl (Exn TypeError (quoted (type_name v) @ '' object is not iterable''))"

text \<open>
  \<^verbatim>\<open>str.lower()\<close> on the code points 0..255: the ASCII capitals and the Latin-1
  capitals (192..222 without the multiplication sign 215) move up by 32.
\<close>

definition lower_char :: "char \<Rightarrow> char" where
  "lower_char c =
     (let n = (of_char c :: nat)
      in if (65 \<le> n \<and> n \<le> 90) \<or> (192 \<le> n \<and> n \<le> 222 \<and> n \<noteq> 215)
         then char_of (n + 32) else c)"

definition lower :: "string \<Rightarrow> string" where
  "lower s = map lower_char s"

text \<open>\<^verbatim>\<open>obj.lower()\<close>: only a string has the method.\<close>

fun py_lower :: "pyval \<Rightarrow> exn + string" where
  "py_lower (PStr s) = Inr (lower s)"
| "py_lower v =
     Inl (Exn AttributeError
       (quoted (type_name v) @ '' object has no attribute '' @ quoted ''lower''))"

text \<open>
  \<^verbatim>\<open>round(x, n)\<close> on the exact value: to the nearest multiple of \<open>10^-n\<close>, a tie
  going to the even neighbour.
\<close>

definition round_half_even :: "rat \<Rightarrow> int" where
  "round_half_even x =
     (let f = \<lfloor>x\<rfloor>; d = x - of_int f
      in if d < 1 / 2 then f else if 1 / 2 < d then f + 1
         else if even f then f else f + 1)"

definition py_round :: "rat \<Rightarrow> nat \<Rightarrow> rat" where
  "py_round x n = of_int (round_half_even (x * 10 ^ n)) / 10 ^ n"

text \<open>
  Python's \<^verbatim>\<open>float\<close> is the IEEE double, a significand of 53 bits times a power of
  two. \<open>double_of x\<close> is the double nearest to \<open>x\<close>, a tie going to the even
  significand: what one arithmetic operation returns whose exact result is \<open>x\<close>.
  \<open>floor_log2 x\<close> is the exponent \<open>e\<close> with \<open>2^e \<le> x < 2^(e+1)\<close>, found from the
  bit lengths of numerator and denominator. The limits of the exponent are left out.
  \<^verbatim>\<open>round(x, n)\<close> rounds the exact value of the double \<open>x\<close>, so \<open>py_round\<close> is
  applied to the rational the double stands for; its result stands for the double nearest
  to that decimal.
\<close>

definition pow2 :: "int \<Rightarrow> rat" where
  "pow2 e = (if 0 \<le> e then 2 ^ nat e else 1 / 2 ^ nat (- e))"

definition floor_log2 :: "rat \<Rightarrow> int" where
  "floor_log2 x =
     (let d = bitlen (fst (quotient_of x)) - bitlen (snd (quotient_of x))
      in if pow2 d \<le> x then d else d - 1)"

definition double_of :: "rat \<Rightarrow> rat" where
  "double_of x =
     (if x = 0 then 0
      else let e = floor_log2 \<bar>x\<bar> - 52
           in of_int (round_half_even (x / pow2 e)) * pow2 e)"


section \<open>\<^verbatim>\<open>advanced_features.py\<close>: experience duration\<close>

text \<open>
  A \<^verbatim>\<open>datetime\<close>, to the second. The source reads its year and its month only.
\<close>

record datetime =
  year :: int
  month :: int
  day :: int
  hour :: int
  minute :: int
  second :: int

definition is_digit :: "char \<Rightarrow> bool" where
  "is_digit c = (48 \<le> (of_char c :: nat) \<and> (of_char c :: nat) \<le> 57)"

text \<open>\<^verbatim>\<open>int(s)\<close> of a text of decimal digits.\<close>

definition int_of_digits :: "string \<Rightarrow> int" where
  "int_of_digits s = foldl (\<lambda>acc c. 10 * acc + (int (of_char c) - 48)) 0 s"

text \<open>\<^verbatim>\<open>re.search(r'(\d{4})', s)\<close>: the leftmost four digits in a row.\<close>

fun search_year :: "string \<Rightarrow> string option" where
  "search_year [] = None"
| "search_year (c # cs) =
     (if 4 \<le> length (c # cs) \<and> list_all is_digit (take 4 (c # cs))
      then Some (take 4 (c # cs)) else search_year cs)"

text \<open>
  \<^verbatim>\<open>ResumeEnhancer._parse_date\<close>. \<open>dateutil\<close> stands for
  \<^verbatim>\<open>parser.parse(date_str, fuzzy=True)\<close> of the dateutil library at the time of the
  call (\<open>None\<close> where it raises; the bare \<^verbatim>\<open>except\<close> catches whatever it raises).
  A value that is no string makes the library raise and then \<^verbatim>\<open>re.search\<close> raise
  inside the handler. Of the four patterns of the handler the first, \<^verbatim>\<open>(\d{4})\<close>,
  is tried first and each of the others contains \<^verbatim>\<open>(\d{4})\<close> too, so the first
  decides: where it matches, the function returns January of that year, or
  \<^verbatim>\<open>datetime(0, 1, 1)\<close> raises; where it does not, no pattern matches.
\<close>

definition parse_date :: "(string \<Rightarrow> datetime option) \<Rightarrow> pyval \<Rightarrow> exn + datetime option" where
  "parse_date dateutil date_str =
     (if \<not> truthy date_str then Inr None
      else case date_str of
        PStr s \<Rightarrow>
          (case dateutil s of
             Some d \<Rightarrow> Inr (Some d)
           | None \<Rightarrow>
               (case search_year s of
                  None \<Rightarrow> Inr None
                | Some y \<Rightarrow>
                    if int_of_digits y = 0 then Inl (Exn ValueError ''year 0 is out of range'')
                    else Inr (Some \<lparr>year = int_of_digits y, month = 1, day = 1,
                                      hour = 0, minute = 0, second = 0\<rparr>)))
      | v \<Rightarrow>
          Inl (Exn TypeError
            (''expected string or bytes-like object, got '' @ quoted (type_name v))))"

text \<open>
  \<^verbatim>\<open>end_date and end_date.lower() in ['present', 'current', 'now']\<close>, as a
  condition.
\<close>

definition end_is_present :: "pyval \<Rightarrow> exn + bool" where
  "end_is_present end_date =
     (if \<not> truthy end_date then Inr False
      else bind (py_lower end_date)
             (\<lambda>l. Inr (l \<in> set [''present'', ''current'', ''now''])))"

definition months_between :: "datetime \<Rightarrow> datetime \<Rightarrow> int" where
  "months_between end start = (year end - year start) * 12 + (month end - month start)"

text \<open>
  The body of the \<^verbatim>\<open>try\<close> of \<^verbatim>\<open>calculate_experience_years\<close> for one entry: the
  months it adds to \<^verbatim>\<open>total_months\<close> (none where it takes \<^verbatim>\<open>continue\<close>), or the
  exception it raises.
\<close>

definition try_months ::
  "datetime \<Rightarrow> (string \<Rightarrow> datetime option) \<Rightarrow> pyval \<Rightarrow> pyval \<Rightarrow> exn + int" where
  "try_months now dateutil start_date end_date =
     bind (parse_date dateutil start_date) (\<lambda>start.
       case start of
         None \<Rightarrow> Inr 0
       | Some start \<Rightarrow>
           bind (end_is_present end_date) (\<lambda>present.
             if present then Inr (max 0 (months_between now start))
             else bind (parse_date dateutil end_date) (\<lambda>end.
               case end of
                 None \<Rightarrow> Inr 0
               | Some end \<Rightarrow> Inr (max 0 (months_between end start)))))"

text \<open>
  One turn of the loop, \<open>entry\<close> being the source's \<^verbatim>\<open>exp\<close>. The two \<^verbatim>\<open>exp.get\<close> stand before the \<^verbatim>\<open>try\<close>: what they
  raise leaves the function. \<^verbatim>\<open>except Exception\<close> turns every exception of the
  body into \<^verbatim>\<open>continue\<close>.
\<close>

definition experience_months ::
  "datetime \<Rightarrow> (string \<Rightarrow> datetime option) \<Rightarrow> pyval \<Rightarrow> exn + int" where
  "experience_months now dateutil entry =
     bind (dict_get entry ''start_date'' PNone) (\<lambda>start_date.
     bind (dict_get entry ''end_date'' PNone) (\<lambda>end_date.
       if \<not> truthy start_date then Inr 0
       else (case try_months now dateutil start_date end_date of
               Inl e \<Rightarrow> Inr 0
             | Inr months \<Rightarrow> Inr months)))"

fun sum_months ::
  "datetime \<Rightarrow> (string \<Rightarrow> datetime option) \<Rightarrow> int \<Rightarrow> pyval list \<Rightarrow> exn + int" where
  "sum_months now dateutil total_months [] = Inr total_months"
| "sum_months now dateutil total_months (entry # rest) =
     bind (experience_months now dateutil entry)
       (\<lambda>months. sum_months now dateutil (total_months + months) rest)"

text \<open>
  \<^verbatim>\<open>ResumeEnhancer.calculate_experience_years\<close>; \<open>now\<close> is what
  \<^verbatim>\<open>datetime.now()\<close> returns during the call. The quotient
  \<^verbatim>\<open>total_months / 12\<close> is taken exactly: where it lies halfway between two tenths
  it is an odd multiple of a quarter, which is a double, and elsewhere it is at least a
  sixtieth away from the halfway point, so that the double nearest to it rounds to the
  same tenth.
\<close>

definition calculate_experience_years ::
  "datetime \<Rightarrow> (string \<Rightarrow> datetime option) \<Rightarrow> pyval \<Rightarrow> exn + rat" where
  "calculate_experience_years now dateutil experience =
     bind (py_iter experience) (\<lambda>exps.
     bind (sum_months now dateutil 0 exps) (\<lambda>total_months.
       Inr (py_round (of_int total_months / 12) 1)))"

subsection \<open>The duration as the specification words it\<close>

text \<open>The value under a key of an entry, \<^verbatim>\<open>None\<close> where the key is missing.\<close>

definition field :: "(string \<times> pyval) list \<Rightarrow> string \<Rightarrow> pyval" where
  "field e k = (case map_of e k of None \<Rightarrow> PNone | Some v \<Rightarrow> v)"

text \<open>A date value parses when \<^verbatim>\<open>_parse_date\<close> returns a date for it.\<close>

definition parsed :: "(string \<Rightarrow> datetime option) \<Rightarrow> pyval \<Rightarrow> datetime option" where
  "parsed dateutil v = (case parse_date dateutil v of Inr (Some d) \<Rightarrow> Some d | _ \<Rightarrow> None)"

text \<open>The end date is 'present', 'current' or 'now', whatever the case of its letters.\<close>

definition is_present_word :: "pyval \<Rightarrow> bool" where
  "is_present_word v =
     (case v of PStr s \<Rightarrow> lower s \<in> set [''present'', ''current'', ''now''] | _ \<Rightarrow> False)"

text \<open>
  The end of an entry as claim C5 words it: the current date where the end date is one
  of the three words, else the date the end date parses to, if it parses.
\<close>

definition claimed_end ::
  "datetime \<Rightarrow> (string \<Rightarrow> datetime option) \<Rightarrow> (string \<times> pyval) list \<Rightarrow> datetime option" where
  "claimed_end now dateutil e =
     (if is_present_word (field e ''end_date'') then Some now
      else parsed dateutil (field e ''end_date''))"

text \<open>
  The months claim C5 gives an entry:
  \<^verbatim>\<open>max(0, (end.year - start.year) * 12 + (end.month - start.month))\<close> where start
  and end are there, 0 for every other entry.
\<close>

definition claimed_entry_months ::
  "datetime \<Rightarrow> (string \<Rightarrow> datetime option) \<Rightarrow> (string \<times> pyval) list \<Rightarrow> int" where
  "claimed_entry_months now dateutil e =
     (case (parsed dateutil (field e ''start_date''), claimed_end now dateutil e) of
        (Some start, Some end) \<Rightarrow>
          max 0 ((year end - year start) * 12 + (month end - month start))
      | _ \<Rightarrow> 0)"

definition claimed_total_months ::
  "datetime \<Rightarrow> (string \<Rightarrow> datetime option) \<Rightarrow> (string \<times> pyval) list list \<Rightarrow> int" where
  "claimed_total_months now dateutil entries =
     sum_list (map (claimed_entry_months now dateutil) entries)"

section \<open>\<^verbatim>\<open>advanced_features.py\<close>: the ATS score\<close>

text \<open>\<^verbatim>\<open>sub in s\<close> for two strings: \<open>sub\<close> occurs in \<open>s\<close> as a contiguous run.\<close>

definition starts_with :: "string \<Rightarrow> string \<Rightarrow> bool" where
  "starts_with s p = (take (length p) s = p)"

fun contains :: "string \<Rightarrow> string \<Rightarrow> bool" where
  "contains [] sub = (sub = [])"
| "contains (c # cs) sub = (starts_with (c # cs) sub \<or> contains cs sub)"

text \<open>\<^verbatim>\<open>str(n)\<close> of a natural number.\<close>

fun str_nat :: "nat \<Rightarrow> string" where
  "str_nat n =
     (if n < 10 then [char_of (48 + n)] else str_nat (n div 10) @ [char_of (48 + n mod 10)])"

text \<open>\<^verbatim>\<open>sep.join(strings)\<close> for strings already at hand.\<close>

fun join :: "string \<Rightarrow> string list \<Rightarrow> string" where
  "join sep [] = []"
| "join sep [s] = s"
| "join sep (s # t # ts) = s @ sep @ join sep (t # ts)"

text \<open>
  The items of \<^verbatim>\<open>sep.join(obj)\<close>, from position \<open>i\<close> on: one that is no string
  raises.
\<close>

fun join_items :: "nat \<Rightarrow> pyval list \<Rightarrow> exn + string list" where
  "join_items i [] = Inr []"
| "join_items i (PStr s # vs) = bind (join_items (Suc i) vs) (\<lambda>ss. Inr (s # ss))"
| "join_items i (v # vs) =
     Inl (Exn TypeError
       (''sequence item '' @ str_nat i @ '': expected str instance, '' @ type_name v
        @ '' found''))"

text \<open>\<^verbatim>\<open>sep.join(obj)\<close>: \<open>obj\<close> is iterated; what is not iterable raises.\<close>

definition py_join :: "string \<Rightarrow> pyval \<Rightarrow> exn + string" where
  "py_join sep v =
     (case py_iter v of
        Inl e \<Rightarrow> Inl (Exn TypeError ''can only join an iterable'')
      | Inr items \<Rightarrow> bind (join_items 0 items) (\<lambda>ss. Inr (join sep ss)))"

text \<open>
  \<^verbatim>\<open>all(p(x) for x in xs)\<close>: the items are tested in order and the first false one
  ends the test, so an item after it is not looked at and raises nothing.
\<close>

fun py_all :: "('a \<Rightarrow> exn + bool) \<Rightarrow> 'a list \<Rightarrow> exn + bool" where
  "py_all p [] = Inr True"
| "py_all p (x # xs) = bind (p x) (\<lambda>b. if b then py_all p xs else Inr False)"

text \<open>A list comprehension \<^verbatim>\<open>[f(x) for x in xs]\<close> whose \<open>f\<close> may raise.\<close>

fun map_exn :: "('a \<Rightarrow> exn + 'b) \<Rightarrow> 'a list \<Rightarrow> exn + 'b list" where
  "map_exn f [] = Inr []"
| "map_exn f (x # xs) = bind (f x) (\<lambda>y. bind (map_exn f xs) (\<lambda>ys. Inr (y # ys)))"

text \<open>
  \<^verbatim>\<open>re.search(r'\d+%|\$\d+|\d+\+', s)\<close>, as a condition. At one position: digits and
  then the character \<open>c\<close> (the greedy \<^verbatim>\<open>\d+\<close> takes every digit; giving one back
  would leave a digit where \<open>c\<close> must stand), or a dollar sign and then a digit.
\<close>

definition digits_then :: "char \<Rightarrow> string \<Rightarrow> bool" where
  "digits_then c s =
     (takeWhile is_digit s \<noteq> [] \<and>
      (case dropWhile is_digit s of [] \<Rightarrow> False | x # xs \<Rightarrow> x = c))"

definition dollar_digits :: "string \<Rightarrow> bool" where
  "dollar_digits s = (case s of x # y # ys \<Rightarrow> x = CHR ''$'' \<and> is_digit y | _ \<Rightarrow> False)"

fun search_quantifiable :: "string \<Rightarrow> bool" where
  "search_quantifiable [] = False"
| "search_quantifiable (c # cs) =
     (digits_then CHR ''%'' (c # cs) \<or> dollar_digits (c # cs) \<or> digits_then CHR ''+'' (c # cs)
      \<or> search_quantifiable cs)"

text \<open>The dictionary \<^verbatim>\<open>calculate_ats_score\<close> returns; \<open>breakdown\<close> in insertion order.\<close>

record ats_score =
  total_score :: int
  max_score :: int
  percentage :: rat
  breakdown :: "(string \<times> int) list"

text \<open>\<^verbatim>\<open># Check personal information (20 points)\<close>\<close>

definition personal_score :: "pyval \<Rightarrow> exn + int" where
  "personal_score resume_data =
     bind (dict_get resume_data ''personal_info'' (PDict [])) (\<lambda>personal_info.
     bind (dict_get personal_info ''name'' PNone) (\<lambda>name.
     bind (dict_get personal_info ''email'' PNone) (\<lambda>email.
     bind (dict_get personal_info ''phone'' PNone) (\<lambda>phone.
     bind (dict_get personal_info ''location'' PNone) (\<lambda>location.
       Inr ((if truthy name then 5 else 0) + (if truthy email then 5 else 0)
            + (if truthy phone then 5 else 0) + (if truthy location then 5 else 0)))))))"

text \<open>\<^verbatim>\<open># Check experience section (30 points)\<close>\<close>

definition has_start_date :: "pyval \<Rightarrow> exn + bool" where
  "has_start_date entry = bind (dict_get entry ''start_date'' PNone) (\<lambda>v. Inr (truthy v))"

definition has_descriptions :: "pyval \<Rightarrow> exn + bool" where
  "has_descriptions entry =
     bind (dict_get entry ''responsibilities'' (PList [])) (\<lambda>r.
     bind (py_len r) (\<lambda>n. Inr (2 \<le> n)))"

definition experience_score :: "pyval \<Rightarrow> exn + int" where
  "experience_score experience =
     (if truthy experience then
        bind (py_iter experience) (\<lambda>entries.
        bind (py_all has_start_date entries) (\<lambda>dates.
        bind (py_all has_descriptions entries) (\<lambda>descriptions.
          Inr (10 + (if dates then 10 else 0) + (if descriptions then 10 else 0)))))
      else Inr 0)"

text \<open>\<^verbatim>\<open># Check education (15 points)\<close>\<close>

definition has_degree_and_institution :: "pyval \<Rightarrow> exn + bool" where
  "has_degree_and_institution edu =
     bind (dict_get edu ''degree'' PNone) (\<lambda>degree.
       if truthy degree
       then bind (dict_get edu ''institution'' PNone) (\<lambda>institution. Inr (truthy institution))
       else Inr False)"

definition education_score :: "pyval \<Rightarrow> exn + int" where
  "education_score resume_data =
     bind (dict_get resume_data ''education'' (PList [])) (\<lambda>education.
       if truthy education then
         bind (py_iter education) (\<lambda>entries.
         bind (py_all has_degree_and_institution entries) (\<lambda>complete.
           Inr (10 + (if complete then 5 else 0))))
       else Inr 0)"

text \<open>
  \<^verbatim>\<open>sum(len(skills.get(k, [])) for k in ['technical', 'soft', 'languages', 'tools'])\<close>
\<close>

fun count_skills :: "pyval \<Rightarrow> string list \<Rightarrow> exn + nat" where
  "count_skills skills [] = Inr 0"
| "count_skills skills (k # ks) =
     bind (dict_get skills k (PList [])) (\<lambda>v.
     bind (py_len v) (\<lambda>n.
     bind (count_skills skills ks) (\<lambda>m. Inr (n + m))))"

definition skill_types :: "string list" where
  "skill_types = [''technical'', ''soft'', ''languages'', ''tools'']"

text \<open>\<^verbatim>\<open># Check skills (20 points)\<close>\<close>

definition skills_score :: "pyval \<Rightarrow> exn + int" where
  "skills_score resume_data =
     bind (dict_get resume_data ''skills'' (PDict [])) (\<lambda>skills.
     bind (count_skills skills skill_types) (\<lambda>total_skills.
       Inr ((if 5 \<le> total_skills then 10 else 0) + (if 10 \<le> total_skills then 10 else 0))))"

text \<open>\<^verbatim>\<open># Check for keywords and formatting (15 points)\<close>\<close>

definition action_verbs :: "string list" where
  "action_verbs =
     [''managed'', ''led'', ''developed'', ''created'', ''implemented'', ''achieved'']"

definition responsibilities_text :: "pyval \<Rightarrow> exn + string" where
  "responsibilities_text entry =
     bind (dict_get entry ''responsibilities'' (PList [])) (\<lambda>r. py_join '' '' r)"

definition keyword_score :: "pyval \<Rightarrow> exn + int" where
  "keyword_score experience =
     bind (py_iter experience) (\<lambda>entries.
     bind (map_exn responsibilities_text entries) (\<lambda>texts.
       let exp_text = lower (join '' '' texts)
       in Inr ((if list_ex (contains exp_text) action_verbs then 10 else 0)
               + (if search_quantifiable exp_text then 5 else 0))))"

text \<open>\<^verbatim>\<open>ResumeEnhancer.calculate_ats_score\<close>\<close>

definition calculate_ats_score :: "pyval \<Rightarrow> exn + ats_score" where
  "calculate_ats_score resume_data =
     bind (personal_score resume_data) (\<lambda>personal.
     bind (dict_get resume_data ''experience'' (PList [])) (\<lambda>experience.
     bind (experience_score experience) (\<lambda>experience_s.
     bind (education_score resume_data) (\<lambda>education_s.
     bind (skills_score resume_data) (\<lambda>skills_s.
     bind (keyword_score experience) (\<lambda>keyword_s.
       let score = personal + experience_s + education_s + skills_s + keyword_s;
           max_score = 100
       in Inr \<lparr>total_score = score,
                max_score = max_score,
                percentage = py_round (of_int score / of_int max_score * 100) 2,
                breakdown = [(''personal_info'', personal), (''experience'', experience_s),
                             (''education'', education_s), (''skills'', skills_s),
                             (''keywords'', keyword_s)]\<rparr>))))))"

subsection \<open>Dictionaries laid out as a resume\<close>

text \<open>
  The analytics read a dictionary laid out as \<^verbatim>\<open>ResumeData\<close>: each key they read is
  missing or holds the kind of container the schema gives it (a dictionary for
  \<^verbatim>\<open>personal_info\<close> and \<^verbatim>\<open>skills\<close>, lists of dictionaries for \<^verbatim>\<open>experience\<close> and
  \<^verbatim>\<open>education\<close>, lists of strings for \<^verbatim>\<open>responsibilities\<close> and the skill
  categories, a string for \<^verbatim>\<open>position\<close>). The other values are of any kind.
\<close>

definition opt_key :: "(string \<times> pyval) list \<Rightarrow> string \<Rightarrow> (pyval \<Rightarrow> bool) \<Rightarrow> bool" where
  "opt_key kvs k P = (case map_of kvs k of None \<Rightarrow> True | Some v \<Rightarrow> P v)"

fun is_dict :: "pyval \<Rightarrow> bool" where
  "is_dict (PDict kvs) = True"
| "is_dict v = False"

fun is_str :: "pyval \<Rightarrow> bool" where
  "is_str (PStr s) = True"
| "is_str v = False"

fun is_list_of :: "(pyval \<Rightarrow> bool) \<Rightarrow> pyval \<Rightarrow> bool" where
  "is_list_of P (PList xs) = list_all P xs"
| "is_list_of P v = False"

fun experience_shaped :: "pyval \<Rightarrow> bool" where
  "experience_shaped (PDict e) =
     (opt_key e ''responsibilities'' (is_list_of is_str) \<and> opt_key e ''position'' is_str)"
| "experience_shaped v = False"

fun skills_shaped :: "pyval \<Rightarrow> bool" where
  "skills_shaped (PDict s) = list_all (\<lambda>k. opt_key s k (is_list_of is_str)) skill_types"
| "skills_shaped v = False"

fun resume_shaped :: "pyval \<Rightarrow> bool" where
  "resume_shaped (PDict kvs) =
     (opt_key kvs ''personal_info'' is_dict
      \<and> opt_key kvs ''experience'' (is_list_of experience_shaped)
      \<and> opt_key kvs ''education'' (is_list_of is_dict)
      \<and> opt_key kvs ''skills'' skills_shaped)"
| "resume_shaped v = False"

text \<open>
  What claim C3 says of the returned dictionary: the breakdown holds the five components,
  their sum is the total score, the maximum is 100, the percentage is
  \<^verbatim>\<open>round(total_score / max_score * 100, 2)\<close> and equals the total score, which lies
  between 0 and 100.
\<close>

definition ats_score_ok :: "ats_score \<Rightarrow> bool" where
  "ats_score_ok r =
     (map fst (breakdown r) = [''personal_info'', ''experience'', ''education'', ''skills'', ''keywords'']
      \<and> total_score r = sum_list (map snd (breakdown r))
      \<and> max_score r = 100
      \<and> percentage r = py_round (of_int (total_score r) / of_int (max_score r) * 100) 2
      \<and> percentage r = of_int (total_score r)
      \<and> 0 \<le> total_score r \<and> total_score r \<le> 100)"

section \<open>\<^verbatim>\<open>advanced_features.py\<close>: skill match\<close>

text \<open>
  The first loop of \<^verbatim>\<open>calculate_skill_match\<close>, over the skill types \<open>ks\<close>:
  \<^verbatim>\<open>resume_skills.update([s.lower() for s in skills.get(skill_type, [])])\<close>. The
  result is what the loop adds to the set.
\<close>

fun lowered_skills :: "pyval \<Rightarrow> string list \<Rightarrow> exn + string set" where
  "lowered_skills skills [] = Inr {}"
| "lowered_skills skills (k # ks) =
     bind (dict_get skills k (PList [])) (\<lambda>v.
     bind (py_iter v) (\<lambda>items.
     bind (map_exn py_lower items) (\<lambda>ls.
     bind (lowered_skills skills ks) (\<lambda>rest. Inr (set ls \<union> rest)))))"

text \<open>
  The second loop. \<open>word_tokenize\<close> is NLTK's tokenizer (with its data installed) and
  \<open>stop_words\<close> the set the constructor stored in \<^verbatim>\<open>self.stop_words\<close>.
\<close>

definition responsibility_words ::
  "(string \<Rightarrow> string list) \<Rightarrow> string set \<Rightarrow> pyval \<Rightarrow> exn + string set" where
  "responsibility_words word_tokenize stop_words resp =
     bind (py_lower resp) (\<lambda>l.
       let words = word_tokenize l
       in Inr (set (filter (\<lambda>w. 2 < length w \<and> w \<notin> stop_words) words)))"

definition entry_words ::
  "(string \<Rightarrow> string list) \<Rightarrow> string set \<Rightarrow> pyval \<Rightarrow> exn + string set" where
  "entry_words word_tokenize stop_words entry =
     bind (dict_get entry ''responsibilities'' (PList [])) (\<lambda>r.
     bind (py_iter r) (\<lambda>resps.
     bind (map_exn (responsibility_words word_tokenize stop_words) resps) (\<lambda>ws.
       Inr (\<Union> (set ws)))))"

text \<open>
  \<^verbatim>\<open>ResumeEnhancer.calculate_skill_match\<close>; the requirements are strings. The
  division and the multiplication of \<^verbatim>\<open>matches / len(job_requirements) * 100\<close> are
  operations on doubles, each rounding its exact result.
\<close>

definition calculate_skill_match ::
  "(string \<Rightarrow> string list) \<Rightarrow> string set \<Rightarrow> pyval \<Rightarrow> string list \<Rightarrow> exn + rat" where
  "calculate_skill_match word_tokenize stop_words resume_data job_requirements =
     bind (dict_get resume_data ''skills'' (PDict [])) (\<lambda>skills.
     bind (lowered_skills skills skill_types) (\<lambda>from_skills.
     bind (dict_get resume_data ''experience'' (PList [])) (\<lambda>experience.
     bind (py_iter experience) (\<lambda>entries.
     bind (map_exn (entry_words word_tokenize stop_words) entries) (\<lambda>from_experience.
       let resume_skills = from_skills \<union> \<Union> (set from_experience);
           job_requirements_lower = map lower job_requirements;
           matches = length (filter (\<lambda>req. \<exists>skill \<in> resume_skills. contains skill req)
                               job_requirements_lower)
       in Inr (if job_requirements \<noteq> []
               then py_round
                      (double_of (double_of (of_nat matches / of_nat (length job_requirements))
                                  * 100)) 2
               else 0))))))"

subsection \<open>The skills of a resume as the specification words them\<close>

fun dict_items :: "pyval \<Rightarrow> (string \<times> pyval) list" where
  "dict_items (PDict kvs) = kvs"
| "dict_items v = []"

fun list_items :: "pyval \<Rightarrow> pyval list" where
  "list_items (PList xs) = xs"
| "list_items v = []"

fun str_of :: "pyval \<Rightarrow> string" where
  "str_of (PStr s) = s"
| "str_of v = []"

text \<open>The strings listed under a key of a dictionary; none where the key is missing.\<close>

definition strings_under :: "pyval \<Rightarrow> string \<Rightarrow> string list" where
  "strings_under d k = map str_of (list_items (field (dict_items d) k))"

text \<open>
  The lowercased entries of the technical, soft, languages and tools categories.
\<close>

definition listed_skills :: "pyval \<Rightarrow> string set" where
  "listed_skills resume =
     set (concat (map (\<lambda>k. map lower (strings_under (field (dict_items resume) ''skills'') k))
                      skill_types))"

text \<open>
  The word tokens of the lowercased responsibilities of the experience entries that
  are longer than 2 characters and are no stop words.
\<close>

definition responsibility_tokens ::
  "(string \<Rightarrow> string list) \<Rightarrow> string set \<Rightarrow> pyval \<Rightarrow> string set" where
  "responsibility_tokens word_tokenize stop_words resume =
     set (concat (map (\<lambda>entry.
            concat (map (\<lambda>resp. filter (\<lambda>w. 2 < length w \<and> w \<notin> stop_words)
                                       (word_tokenize (lower resp)))
                        (strings_under entry ''responsibilities'')))
          (list_items (field (dict_items resume) ''experience''))))"

text \<open>
  The number \<open>m\<close> of claim C8: the requirements whose lowercased text occurs in at
  least one skill of the resume.
\<close>

definition claimed_matches ::
  "(string \<Rightarrow> string list) \<Rightarrow> string set \<Rightarrow> pyval \<Rightarrow> string list \<Rightarrow> nat" where
  "claimed_matches word_tokenize stop_words resume job_requirements =
     length (filter (\<lambda>req. \<exists>skill \<in> listed_skills resume
                                     \<union> responsibility_tokens word_tokenize stop_words resume.
                             contains skill (lower req))
                    job_requirements)"

text \<open>
  The result claim C8 states: 0 for no requirement, else \<^verbatim>\<open>round(m / n * 100, 2)\<close>
  in Python's arithmetic on doubles.
\<close>

definition claimed_skill_match ::
  "(string \<Rightarrow> string list) \<Rightarrow> string set \<Rightarrow> pyval \<Rightarrow> string list \<Rightarrow> rat" where
  "claimed_skill_match word_tokenize stop_words resume job_requirements =
     (if job_requirements = [] then 0
      else py_round
             (double_of
                (double_of
                   (of_nat (claimed_matches word_tokenize stop_words resume job_requirements)
                    / of_nat (length job_requirements))
                 * 100)) 2)"


text \<open>A small resume dictionary on which the theorems are tried.\<close>

definition sample_resume :: pyval where
  "sample_resume =
     PDict [(''personal_info'', PDict [(''name'', PStr ''John Doe''), (''email'', PStr ''j@d'')]),
            (''experience'',
               PList [PDict [(''position'', PStr ''Lead''), (''start_date'', PStr ''2020''),
                             (''end_date'', PStr ''Present''),
                             (''responsibilities'', PList [PStr ''Led 5+'', PStr ''Docker''])]]),
            (''skills'', PDict [(''technical'', PList [PStr ''Python''])])]"

section \<open>\<^verbatim>\<open>advanced_features.py\<close>: comparing two resumes\<close>











definition sample_dateutil :: "string \<Rightarrow> datetime option" where
  "sample_dateutil s =
     (if s = ''January 2020''
      then Some \<lparr>year = 2020, month = 1, day = 3, hour = 0, minute = 0, second = 0\<rparr>
      else None)"

text \<open>
  Six entries: a current position, two positions given by years alone (the second ending
  before it starts), and three whose dates do not parse or are missing.
\<close>

definition sample_entries :: "(string \<times> pyval) list list" where
  "sample_entries =
     [[(''start_date'', PStr ''January 2020''), (''end_date'', PStr ''PRESENT'')],
      [(''start_date'', PStr ''2015''), (''end_date'', PStr ''2018'')],
      [(''start_date'', PStr ''2021''), (''end_date'', PStr ''2019'')],
      [(''start_date'', PStr ''soon''), (''end_date'', PStr ''Present'')],
      [(''start_date'', PStr ''January 2020''), (''end_date'', PStr ''later'')],
      [(''company'', PStr ''Acme''), (''end_date'', PStr ''now'')]]"


section \<open>\<^verbatim>\<open>resume_extractor.py\<close>: text of a PDF\<close>

text \<open>
  White space as \<^verbatim>\<open>str.strip()\<close> and the pattern \<^verbatim>\<open>\s\<close> know it, on the code
  points 0..255: tab to carriage return, the separators 28..31, the space, and 133 and
  160.
\<close>

definition is_space :: "char \<Rightarrow> bool" where
  "is_space c =
     (let n = (of_char c :: nat)
      in (9 \<le> n \<and> n \<le> 13) \<or> (28 \<le> n \<and> n \<le> 32) \<or> n = 133 \<or> n = 160)"

text \<open>\<^verbatim>\<open>s.strip()\<close>\<close>

definition strip :: "string \<Rightarrow> string" where
  "strip s = rev (dropWhile is_space (rev (dropWhile is_space s)))"

text \<open>\<^verbatim>\<open>re.sub(r'\s+', ' ', text)\<close>: every run of white space becomes one space.\<close>

function collapse_spaces :: "string \<Rightarrow> string" where
  "collapse_spaces [] = []"
| "collapse_spaces (c # cs) =
     (if is_space c then CHR '' '' # collapse_spaces (dropWhile is_space cs)
      else c # collapse_spaces cs)"
  by pat_completeness auto
termination
  by (relation "measure length") (auto simp: less_Suc_eq_le length_dropWhile_le)

text \<open>
  \<^verbatim>\<open>re.sub(r'\n\s*\n', '\n\n', text)\<close>. At a newline the greedy \<^verbatim>\<open>\s*\<close> takes the
  whole run of white space that follows and gives back as little as lets a newline end
  the match: the match ends at the last newline of that run, if the run has one.
\<close>

definition upto_last_newline :: "string \<Rightarrow> nat option" where
  "upto_last_newline run =
     (if CHR 0x0A \<in> set run
      then Some (length run - length (takeWhile (\<lambda>c. c \<noteq> CHR 0x0A) (rev run)))
      else None)"

function blank_lines :: "string \<Rightarrow> string" where
  "blank_lines [] = []"
| "blank_lines (c # cs) =
     (if c = CHR 0x0A then
        (case upto_last_newline (takeWhile is_space cs) of
           Some n \<Rightarrow> CHR 0x0A # CHR 0x0A # blank_lines (drop n cs)
         | None \<Rightarrow> c # blank_lines cs)
      else c # blank_lines cs)"
  by pat_completeness auto
termination
  by (relation "measure length") auto

text \<open>\<^verbatim>\<open>text.replace('|', 'I')\<close>\<close>

definition replace_char :: "char \<Rightarrow> char \<Rightarrow> string \<Rightarrow> string" where
  "replace_char old new s = map (\<lambda>c. if c = old then new else c) s"

text \<open>
  \<^verbatim>\<open>re.sub(r'(?<=[a-z])(?=[A-Z])', ' ', text)\<close>: a space goes between a small ASCII
  letter and a capital ASCII letter that follows it.
\<close>

definition is_ascii_lower :: "char \<Rightarrow> bool" where
  "is_ascii_lower c = (97 \<le> (of_char c :: nat) \<and> (of_char c :: nat) \<le> 122)"

definition is_ascii_upper :: "char \<Rightarrow> bool" where
  "is_ascii_upper c = (65 \<le> (of_char c :: nat) \<and> (of_char c :: nat) \<le> 90)"

fun split_camel_case :: "string \<Rightarrow> string" where
  "split_camel_case (a # b # cs) =
     (if is_ascii_lower a \<and> is_ascii_upper b then a # CHR '' '' # split_camel_case (b # cs)
      else a # split_camel_case (b # cs))"
| "split_camel_case cs = cs"

text \<open>\<^verbatim>\<open>ResumeExtractor.clean_text\<close>\<close>

definition clean_text :: "string \<Rightarrow> string" where
  "clean_text text =
     (let text = collapse_spaces text;
          text = blank_lines text;
          text = replace_char CHR ''|'' CHR ''I'' text;
          text = split_camel_case text
      in strip text)"

text \<open>
  A page of the opened document: the text \<^verbatim>\<open>page.get_text()\<close> returns, and what
  \<^verbatim>\<open>ocr.ocr\<close> does when called on the picture of the page rendered at
  \<^verbatim>\<open>fitz.Matrix(2, 2)\<close>: it raises (also when the engine failed to start and \<^verbatim>\<open>ocr\<close> is
  \<^verbatim>\<open>None\<close>), or returns its lines, each \<^verbatim>\<open>None\<close> or the recognised texts
  \<^verbatim>\<open>word_info[1][0]\<close> of its items. The temporary picture file the source writes and
  removes is left out.
\<close>

record pdf_page =
  text_layer :: string
  ocr_outcome :: "exn + string list option list"

text \<open>\<^verbatim>\<open>len(page_text.strip()) < 50\<close>: the page is taken for a scan.\<close>

definition needs_ocr :: "pdf_page \<Rightarrow> bool" where
  "needs_ocr page = (length (strip (text_layer page)) < 50)"

text \<open>
  What the loop over one line of the OCR result appends to \<^verbatim>\<open>page_text\<close>: for a
  line that is neither \<^verbatim>\<open>None\<close> nor empty, each text and a space, then a newline.
\<close>

definition ocr_line_text :: "string list option \<Rightarrow> string" where
  "ocr_line_text line =
     (case line of
        None \<Rightarrow> []
      | Some words \<Rightarrow>
          if words = [] then []
          else concat (map (\<lambda>w. w @ '' '') words) @ [CHR 0x0A])"

definition ocr_text :: "string list option list \<Rightarrow> string" where
  "ocr_text result = concat (map ocr_line_text result)"

text \<open>
  The loop over the pages from page number \<open>page_num\<close> on. The state is the text
  gathered so far and the numbers of the pages handed to the OCR engine, in the order
  of the calls.
\<close>

fun pages_loop ::
  "nat \<Rightarrow> pdf_page list \<Rightarrow> string \<Rightarrow> nat list \<Rightarrow> (exn + string) \<times> nat list" where
  "pages_loop page_num [] text ocr_calls = (Inr text, ocr_calls)"
| "pages_loop page_num (page # rest) text ocr_calls =
     (let page_text = text_layer page
      in if length (strip page_text) < 50 then
           (case ocr_outcome page of
              Inl e \<Rightarrow> (Inl e, ocr_calls @ [page_num])
            | Inr result \<Rightarrow>
                pages_loop (Suc page_num) rest
                  (text @ (page_text @ ocr_text result) @ [CHR 0x0A])
                  (ocr_calls @ [page_num]))
         else pages_loop (Suc page_num) rest (text @ page_text @ [CHR 0x0A]) ocr_calls)"

text \<open>
  \<^verbatim>\<open>ResumeExtractor.extract_text_from_pdf\<close>, on the outcome of \<^verbatim>\<open>fitz.open\<close>: the
  returned text or the exception raised, and the pages handed to the OCR engine.
\<close>

definition extract_text_from_pdf :: "exn + pdf_page list \<Rightarrow> (exn + string) \<times> nat list" where
  "extract_text_from_pdf pdf_document =
     (case pdf_document of
        Inl e \<Rightarrow> (Inl e, [])
      | Inr pages \<Rightarrow>
          (case pages_loop 0 pages [] [] of
             (Inl e, ocr_calls) \<Rightarrow> (Inl e, ocr_calls)
           | (Inr text, ocr_calls) \<Rightarrow> (Inr (clean_text text), ocr_calls)))"

subsection \<open>The text of a document as the specification words it\<close>

text \<open>
  The text of one page: its text layer, followed by the words the OCR engine recognised
  when the text layer is too short.
\<close>

definition page_text_of :: "pdf_page \<Rightarrow> string" where
  "page_text_of page =
     (if needs_ocr page
      then text_layer page @ (case ocr_outcome page of Inl e \<Rightarrow> [] | Inr result \<Rightarrow> ocr_text result)
      else text_layer page)"

text \<open>The pages on which the OCR engine either is not needed or returns.\<close>

definition ocr_available :: "pdf_page \<Rightarrow> bool" where
  "ocr_available page = (\<not> isl (ocr_outcome page) \<or> \<not> needs_ocr page)"

text \<open>The numbers, from \<open>n\<close> on, of the pages that need the OCR engine.\<close>

fun scanned_pages :: "nat \<Rightarrow> pdf_page list \<Rightarrow> nat list" where
  "scanned_pages n [] = []"
| "scanned_pages n (page # rest) =
     (if needs_ocr page then n # scanned_pages (Suc n) rest else scanned_pages (Suc n) rest)"

text \<open>A scanned first page and a second page with a text layer.\<close>

definition sample_pages :: "pdf_page list" where
  "sample_pages =
     [\<lparr>text_layer = ''  '', ocr_outcome = Inr [Some [''JohnDoe'', ''a|b''], None]\<rparr>,
      \<lparr>text_layer = ''Senior Engineer at Tech Corp since 2020, leading a team of five people'',
       ocr_outcome = Inl (Exn OtherException ''no engine'')\<rparr>]"

section \<open>\<^verbatim>\<open>resume_extractor.py\<close>: the reply of the language model\<close>

text \<open>\<^verbatim>\<open>text.find(c)\<close> and \<^verbatim>\<open>text.rfind(c)\<close>; \<open>None\<close> stands for -1.\<close>

definition find_char :: "char \<Rightarrow> string \<Rightarrow> nat option" where
  "find_char c s = (if c \<in> set s then Some (length (takeWhile (\<lambda>x. x \<noteq> c) s)) else None)"

definition rfind_char :: "char \<Rightarrow> string \<Rightarrow> nat option" where
  "rfind_char c s =
     (if c \<in> set s then Some (length s - 1 - length (takeWhile (\<lambda>x. x \<noteq> c) (rev s)))
      else None)"

text \<open>
  \<^verbatim>\<open>re.sub(fence + r'\s*', '', text)\<close> for a literal \<open>fence\<close>: every occurrence of the
  fence goes, with the white space after it.
\<close>

function remove_fence :: "string \<Rightarrow> string \<Rightarrow> string" where
  "remove_fence fence [] = []"
| "remove_fence fence (c # cs) =
     (if fence \<noteq> [] \<and> starts_with (c # cs) fence
      then remove_fence fence (dropWhile is_space (drop (length fence) (c # cs)))
      else c # remove_fence fence cs)"
  by pat_completeness auto
termination
proof (relation "measure (\<lambda>(fence, s). length s)")
  fix fence :: string and c :: char and cs :: string
  assume "fence \<noteq> [] \<and> starts_with (c # cs) fence"
  then have "0 < length fence" by simp
  then have "length (drop (length fence) (c # cs)) < length (c # cs)" by simp
  moreover have "length (dropWhile is_space (drop (length fence) (c # cs)))
      \<le> length (drop (length fence) (c # cs))"
    by (rule length_dropWhile_le)
  ultimately show "((fence, dropWhile is_space (drop (length fence) (c # cs))), fence, c # cs)
      \<in> measure (\<lambda>(fence, s). length s)"
    by simp
qed auto

definition code_fence :: string where
  "code_fence = replicate 3 (CHR 0x60)"

text \<open>
  \<^verbatim>\<open>ResumeExtractor.clean_json_response\<close>; the slice \<^verbatim>\<open>text[start_idx:end_idx + 1]\<close> is
  empty when the last closing brace stands before the first opening one.
\<close>

definition clean_json_response :: "string \<Rightarrow> string" where
  "clean_json_response text =
     (let text = remove_fence (code_fence @ ''json'') text;
          text = remove_fence code_fence text
      in case (find_char CHR ''{'' text, rfind_char CHR ''}'' text) of
           (Some start_idx, Some end_idx) \<Rightarrow> take (end_idx + 1 - start_idx) (drop start_idx text)
         | _ \<Rightarrow> text)"

text \<open>
  \<^verbatim>\<open>re.sub(r',\s*}', '}', s)\<close> and \<^verbatim>\<open>re.sub(r',\s*]', ']', s)\<close>, \<open>closer\<close> being the
  brace or the bracket: a comma, the white space after it and the closer become the
  closer.
\<close>

function drop_trailing_commas :: "char \<Rightarrow> string \<Rightarrow> string" where
  "drop_trailing_commas closer [] = []"
| "drop_trailing_commas closer (c # cs) =
     (if c = CHR '','' then
        (case dropWhile is_space cs of
           [] \<Rightarrow> c # drop_trailing_commas closer cs
         | d # ds \<Rightarrow>
             if d = closer then closer # drop_trailing_commas closer ds
             else c # drop_trailing_commas closer cs)
      else c # drop_trailing_commas closer cs)"
  by pat_completeness auto
termination
proof (relation "measure (\<lambda>(closer, s). length s)")
  fix closer c :: char and cs :: string and d :: char and ds :: string
  assume "dropWhile is_space cs = d # ds"
  then have "length (d # ds) \<le> length cs"
    by (metis length_dropWhile_le)
  then show "((closer, ds), closer, c # cs) \<in> measure (\<lambda>(closer, s). length s)"
    by simp
qed auto

text \<open>The text \<^verbatim>\<open>fix_json_errors\<close> hands to \<^verbatim>\<open>json.loads\<close>.\<close>

definition repair_json :: "string \<Rightarrow> string" where
  "repair_json json_text =
     (let json_text = replace_char (CHR 0x27) (CHR 0x22) json_text;
          json_text = drop_trailing_commas CHR ''}'' json_text;
          json_text = drop_trailing_commas CHR '']'' json_text
      in json_text)"

text \<open>The minimal structure \<^verbatim>\<open>fix_json_errors\<close> returns when all fails.\<close>

definition placeholder :: pyval where
  "placeholder =
     PDict [(''personal_info'', PDict [(''name'', PStr ''Error parsing resume'')]),
            (''experience'', PList []),
            (''education'', PList []),
            (''skills'', PDict [(''technical'', PList []), (''soft'', PList []),
                                (''languages'', PList []), (''tools'', PList [])])]"

text \<open>
  \<^verbatim>\<open>ResumeExtractor.fix_json_errors\<close>. \<open>loads\<close> stands for \<^verbatim>\<open>json.loads\<close>: the value
  parsed, or the exception raised (a \<^verbatim>\<open>JSONDecodeError\<close> for a text that is no JSON).
  The bare \<^verbatim>\<open>except\<close> catches whatever is raised, so the function always returns.
\<close>

definition fix_json_errors :: "(string \<Rightarrow> exn + pyval) \<Rightarrow> string \<Rightarrow> pyval" where
  "fix_json_errors loads json_text =
     (case loads (repair_json json_text) of Inr data \<Rightarrow> data | Inl e \<Rightarrow> placeholder)"

text \<open>
  One turn of the loop of \<^verbatim>\<open>extract_with_llm\<close>, the \<^verbatim>\<open>try\<close> with its two handlers.
  \<open>chat attempt\<close> stands for the call of \<^verbatim>\<open>ollama.chat\<close> of this turn together with
  \<^verbatim>\<open>response['message']['content']\<close>: the text of the reply, or the exception
  raised. \<open>json_text\<close> is the variable of that name, \<open>None\<close> while it is unbound; it
  keeps its value from one turn to the next. The turn ends the function (\<open>Inl\<close>: with
  a returned value or a raised exception) or leaves the loop to go on (\<open>Inr\<close>: with the
  value of \<open>json_text\<close>).
\<close>

definition on_exception ::
  "(string \<Rightarrow> exn + pyval) \<Rightarrow> nat \<Rightarrow> nat \<Rightarrow> exn \<Rightarrow> string option
     \<Rightarrow> (exn + pyval) + string option" where
  "on_exception loads max_retries attempt e json_text =
     (if exn_cls e = JSONDecodeError then
        (if Suc attempt = max_retries then
           (case json_text of
              None \<Rightarrow>
                Inl (Inl (Exn UnboundLocalError
                  (''cannot access local variable '' @ quoted ''json_text''
                   @ '' where it is not associated with a value'')))
            | Some t \<Rightarrow> Inl (Inr (fix_json_errors loads t)))
         else Inr json_text)
      else (if Suc attempt = max_retries then Inl (Inl e) else Inr json_text))"

definition attempt_step ::
  "(nat \<Rightarrow> exn + string) \<Rightarrow> (string \<Rightarrow> exn + pyval) \<Rightarrow> nat \<Rightarrow> nat \<Rightarrow> string option
     \<Rightarrow> (exn + pyval) + string option" where
  "attempt_step chat loads max_retries attempt json_text =
     (case chat attempt of
        Inl e \<Rightarrow> on_exception loads max_retries attempt e json_text
      | Inr content \<Rightarrow>
          (let json_text = clean_json_response content
           in case loads json_text of
                Inr data \<Rightarrow> Inl (Inr data)
              | Inl e \<Rightarrow> on_exception loads max_retries attempt e (Some json_text)))"

text \<open>
  \<^verbatim>\<open>for attempt in range(max_retries)\<close>, from \<open>attempt\<close> on: what the function
  returns or raises, and the number of calls of \<^verbatim>\<open>ollama.chat\<close> made when it ends.
  A loop that runs out returns \<^verbatim>\<open>None\<close>.
\<close>

function attempts ::
  "(nat \<Rightarrow> exn + string) \<Rightarrow> (string \<Rightarrow> exn + pyval) \<Rightarrow> nat \<Rightarrow> nat \<Rightarrow> string option
     \<Rightarrow> (exn + pyval) \<times> nat" where
  "attempts chat loads max_retries attempt json_text =
     (if attempt < max_retries then
        (case attempt_step chat loads max_retries attempt json_text of
           Inl outcome \<Rightarrow> (outcome, Suc attempt)
         | Inr json_text' \<Rightarrow> attempts chat loads max_retries (Suc attempt) json_text')
      else (Inr PNone, attempt))"
  by pat_completeness auto
termination
  by (relation "measure (\<lambda>(chat, loads, max_retries, attempt, json_text). max_retries - attempt)")
     auto

text \<open>
  \<^verbatim>\<open>ResumeExtractor.extract_with_llm\<close>, for the prompt made from the text of the
  resume; \<^verbatim>\<open>max_retries\<close> is 3 unless the caller gives it.
\<close>

definition extract_with_llm ::
  "(nat \<Rightarrow> exn + string) \<Rightarrow> (string \<Rightarrow> exn + pyval) \<Rightarrow> nat \<Rightarrow> (exn + pyval) \<times> nat" where
  "extract_with_llm chat loads max_retries = attempts chat loads max_retries 0 None"

text \<open>
  Attempt \<open>i\<close> fails JSON parsing: the model replies and \<^verbatim>\<open>json.loads\<close> raises
  \<^verbatim>\<open>JSONDecodeError\<close> on the cleaned reply.
\<close>

definition fails_parsing :: "(nat \<Rightarrow> exn + string) \<Rightarrow> (string \<Rightarrow> exn + pyval) \<Rightarrow> nat \<Rightarrow> bool" where
  "fails_parsing chat loads i =
     (case chat i of
        Inl e \<Rightarrow> False
      | Inr content \<Rightarrow>
          (case loads (clean_json_response content) of
             Inl e \<Rightarrow> exn_cls e = JSONDecodeError
           | Inr data \<Rightarrow> False))"

subsection \<open>The repair as the specification words it\<close>

text \<open>Quote replacement: every single quote becomes a double quote.\<close>

definition quotes_replaced :: "string \<Rightarrow> string" where
  "quotes_replaced s = map (\<lambda>c. if c = CHR 0x27 then CHR 0x22 else c) s"

text \<open>The pieces into which the occurrences of \<open>sep\<close> cut a text.\<close>

fun pieces :: "char \<Rightarrow> string \<Rightarrow> string list" where
  "pieces sep [] = [[]]"
| "pieces sep (c # cs) =
     (if c = sep then [] # pieces sep cs
      else (case pieces sep cs of p # ps \<Rightarrow> (c # p) # ps | [] \<Rightarrow> [[c]]))"

text \<open>
  Trailing-comma removal, told of the piece that follows a comma: the comma is trailing
  when the first character of the piece after its leading white space is the closing
  brace (or bracket); then the comma goes, and that white space with it. Every other
  comma stays.
\<close>

definition after_comma :: "char \<Rightarrow> string \<Rightarrow> string" where
  "after_comma closer piece =
     (let rest = dropWhile is_space piece
      in if rest \<noteq> [] \<and> hd rest = closer then rest else CHR '','' # piece)"

definition commas_removed :: "char \<Rightarrow> string \<Rightarrow> string" where
  "commas_removed closer s =
     (case pieces CHR '','' s of
        [] \<Rightarrow> []
      | first # rest \<Rightarrow> first @ concat (map (after_comma closer) rest))"

text \<open>
  The repair of claim C1: quote replacement, then the trailing commas before a brace,
  then those before a bracket.
\<close>

definition claimed_repair :: "string \<Rightarrow> string" where
  "claimed_repair s = commas_removed CHR '']'' (commas_removed CHR ''}'' (quotes_replaced s))"

text \<open>
  A model whose first two replies are no JSON and whose third wraps, in a code fence and
  between two lines of prose, a dictionary written with single quotes and a trailing
  comma; a model that refuses; and a parser that accepts one text only, the repaired
  dictionary.
\<close>

definition dquoted :: "string \<Rightarrow> string" where
  "dquoted s = CHR 0x22 # s @ [CHR 0x22]"

definition sample_reply :: string where
  "sample_reply =
     ''Here is the JSON:'' @ [CHR 0x0A] @ code_fence @ ''json'' @ [CHR 0x0A]
     @ ''{'' @ quoted ''name'' @ '': '' @ quoted ''John'' @ '', }'' @ [CHR 0x0A]
     @ code_fence @ [CHR 0x0A] @ ''Done.''"

definition sample_chat :: "nat \<Rightarrow> exn + string" where
  "sample_chat i =
     Inr (if i = 2 then sample_reply else ''Sorry, attempt '' @ str_nat i @ '': {name: John,}'')"

definition sample_refusal :: "nat \<Rightarrow> exn + string" where
  "sample_refusal i = Inr ''I cannot read this resume.''"

definition sample_loads :: "string \<Rightarrow> exn + pyval" where
  "sample_loads t =
     (if t = ''{'' @ dquoted ''name'' @ '': '' @ dquoted ''John'' @ ''}''
      then Inr (PDict [(''name'', PStr ''John'')])
      else Inl (Exn JSONDecodeError ''Expecting property name enclosed in double quotes''))"

text \<open>What claim C1 says of the placeholder.\<close>

definition is_minimal_placeholder :: "pyval \<Rightarrow> bool" where
  "is_minimal_placeholder v =
     (field (dict_items (field (dict_items v) ''personal_info'')) ''name''
        = PStr ''Error parsing resume''
      \<and> field (dict_items v) ''experience'' = PList []
      \<and> field (dict_items v) ''education'' = PList []
      \<and> list_all (\<lambda>k. field (dict_items (field (dict_items v) ''skills'')) k = PList [])
           skill_types)"

section \<open>Lemmas\<close>

lemma bind_Inr [simp]: "bind (Inr x) f = f x"
  by (simp add: bind_def)

lemma bind_Inl [simp]: "bind (Inl e) f = Inl e"
  by (simp add: bind_def)

lemma bind_Inr_iff: "bind m f = Inr y \<longleftrightarrow> (\<exists>x. m = Inr x \<and> f x = Inr y)"
  by (cases m) (simp_all add: bind_def)


lemma lower_Nil [simp]: "lower [] = []"
  by (simp add: lower_def)

lemma dict_get_field: "dict_get (PDict e) k PNone = Inr (field e k)"
  by (simp add: field_def)

lemma end_is_present_Inr: "end_is_present v = Inr b \<Longrightarrow> b = is_present_word v"
  by (cases v) (auto simp: end_is_present_def is_present_word_def split: if_splits)

lemma end_is_present_Inl:
  "end_is_present v = Inl e \<Longrightarrow> parsed dateutil v = None \<and> \<not> is_present_word v"
  by (cases v) (auto simp: end_is_present_def is_present_word_def parsed_def parse_date_def split: if_splits)

lemma try_months_claimed:
  "(case try_months now dateutil sd ed of Inl e \<Rightarrow> 0 | Inr m \<Rightarrow> m) =
   (case (parsed dateutil sd, if is_present_word ed then Some now else parsed dateutil ed) of
      (Some start, Some end) \<Rightarrow>
        max 0 ((year end - year start) * 12 + (month end - month start))
    | _ \<Rightarrow> 0)"
proof (cases "parse_date dateutil sd")
  case (Inl e)
  then show ?thesis by (simp add: try_months_def parsed_def)
next
  case (Inr start)
  show ?thesis
  proof (cases start)
    case None
    with Inr show ?thesis by (simp add: try_months_def parsed_def)
  next
    case (Some s)
    show ?thesis
    proof (cases "end_is_present ed")
      case (Inl e)
      from end_is_present_Inl[OF this, of dateutil] Inr Some Inl show ?thesis
        by (simp add: try_months_def parsed_def)
    next
      case present: (Inr b)
      from end_is_present_Inr[OF this] have b: "b = is_present_word ed" .
      show ?thesis
        using Inr Some present b
        by (cases "parse_date dateutil ed")
           (auto simp: try_months_def parsed_def months_between_def split: option.splits)
    qed
  qed
qed

lemma parsed_falsy: "\<not> truthy v \<Longrightarrow> parsed dateutil v = None"
  by (simp add: parsed_def parse_date_def)

lemma experience_months_entry:
  "experience_months now dateutil (PDict e) = Inr (claimed_entry_months now dateutil e)"
proof (cases "truthy (field e ''start_date'')")
  case False
  then show ?thesis
    by (simp add: experience_months_def dict_get_field claimed_entry_months_def parsed_falsy
          del: dict_get.simps)
next
  case True
  have "experience_months now dateutil (PDict e) =
        Inr (case try_months now dateutil (field e ''start_date'') (field e ''end_date'') of
               Inl e \<Rightarrow> 0 | Inr m \<Rightarrow> m)"
    using True
    by (simp add: experience_months_def dict_get_field del: dict_get.simps split: sum.splits)
  then show ?thesis
    by (simp only: try_months_claimed claimed_entry_months_def claimed_end_def)
qed

lemma sum_months_entries:
  "sum_months now dateutil t (map PDict entries) =
   Inr (t + claimed_total_months now dateutil entries)"
  by (induction entries arbitrary: t)
     (simp_all add: claimed_total_months_def experience_months_entry)

lemma claimed_entry_months_nonneg: "0 \<le> claimed_entry_months now dateutil e"
  by (simp add: claimed_entry_months_def split: option.splits prod.splits)

lemma claimed_total_months_nonneg: "0 \<le> claimed_total_months now dateutil entries"
  unfolding claimed_total_months_def
  by (induction entries) (simp_all add: claimed_entry_months_nonneg)

lemma round_half_even_nonneg: "0 \<le> x \<Longrightarrow> 0 \<le> round_half_even x"
  by (auto simp: round_half_even_def Let_def)

lemma py_round_nonneg: "0 \<le> x \<Longrightarrow> 0 \<le> py_round x n"
  by (simp add: py_round_def round_half_even_nonneg)

declare str_nat.simps [simp del]





lemma round_half_even_of_int [simp]: "round_half_even (of_int k) = k"
  by (simp add: round_half_even_def)

lemma py_round_of_int: "py_round (of_int k) n = of_int k"
proof -
  have "(of_int k :: rat) * 10 ^ n = of_int (k * 10 ^ n)" by simp
  then have "round_half_even (of_int k * 10 ^ n) = k * 10 ^ n"
    by (simp only: round_half_even_of_int)
  then show ?thesis by (simp add: py_round_def)
qed

lemma percentage_is_score: "py_round (of_int s / of_int 100 * 100) 2 = of_int s"
  using py_round_of_int[of s 2] by simp

lemma personal_score_range: "personal_score d = Inr n \<Longrightarrow> 0 \<le> n \<and> n \<le> 20"
  by (auto simp: personal_score_def bind_Inr_iff)

lemma experience_score_range: "experience_score v = Inr n \<Longrightarrow> 0 \<le> n \<and> n \<le> 30"
  by (auto simp: experience_score_def bind_Inr_iff split: if_splits)

lemma education_score_range: "education_score d = Inr n \<Longrightarrow> 0 \<le> n \<and> n \<le> 15"
  by (auto simp: education_score_def bind_Inr_iff split: if_splits)

lemma skills_score_range: "skills_score d = Inr n \<Longrightarrow> 0 \<le> n \<and> n \<le> 20"
  by (auto simp: skills_score_def bind_Inr_iff split: if_splits)

lemma keyword_score_range: "keyword_score v = Inr n \<Longrightarrow> 0 \<le> n \<and> n \<le> 15"
  by (auto simp: keyword_score_def bind_Inr_iff Let_def split: if_splits)

lemma calculate_ats_score_sound:
  assumes "calculate_ats_score d = Inr r"
  shows "ats_score_ok r"
proof -
  from assms obtain p x e ed sk kw where
    p: "personal_score d = Inr p" and e: "experience_score x = Inr e"
    and ed: "education_score d = Inr ed" and sk: "skills_score d = Inr sk"
    and kw: "keyword_score x = Inr kw"
    and r: "r = \<lparr>total_score = p + e + ed + sk + kw, max_score = 100,
                percentage = py_round (of_int (p + e + ed + sk + kw) / of_int 100 * 100) 2,
                breakdown = [(''personal_info'', p), (''experience'', e),
                             (''education'', ed), (''skills'', sk), (''keywords'', kw)]\<rparr>"
    using assms unfolding calculate_ats_score_def bind_Inr_iff Let_def by blast
  note rng = personal_score_range[OF p] experience_score_range[OF e]
    education_score_range[OF ed] skills_score_range[OF sk] keyword_score_range[OF kw]
  have pc: "percentage r = of_int (total_score r)"
    unfolding r using percentage_is_score[of "p + e + ed + sk + kw"] by simp
  show ?thesis
    unfolding ats_score_ok_def using rng pc by (simp add: r)
qed


lemma dict_get_opt_key:
  "opt_key kvs k P \<Longrightarrow> P dflt \<Longrightarrow> \<exists>v. dict_get (PDict kvs) k dflt = Inr v \<and> P v"
  by (auto simp: opt_key_def split: option.splits)

lemma is_dict_PDict: "is_dict v \<Longrightarrow> \<exists>e. v = PDict e"
  by (cases v) auto

lemma is_list_of_PList: "is_list_of P v \<Longrightarrow> \<exists>xs. v = PList xs \<and> list_all P xs"
  by (cases v) auto

lemma experience_shaped_PDict:
  "experience_shaped v \<Longrightarrow>
   \<exists>e. v = PDict e \<and> opt_key e ''responsibilities'' (is_list_of is_str)
       \<and> opt_key e ''position'' is_str"
  by (cases v) auto

lemma skills_shaped_PDict:
  "skills_shaped v \<Longrightarrow>
   \<exists>s. v = PDict s \<and> list_all (\<lambda>k. opt_key s k (is_list_of is_str)) skill_types"
  by (cases v) auto

lemma resume_shaped_PDict:
  "resume_shaped d \<Longrightarrow>
   \<exists>kvs. d = PDict kvs \<and> opt_key kvs ''personal_info'' is_dict
     \<and> opt_key kvs ''experience'' (is_list_of experience_shaped)
     \<and> opt_key kvs ''education'' (is_list_of is_dict)
     \<and> opt_key kvs ''skills'' skills_shaped"
  by (cases d) auto

lemma py_all_returns:
  "list_all (\<lambda>x. \<exists>b. p x = Inr b) xs \<Longrightarrow> \<exists>b. py_all p xs = Inr b"
  by (induction xs) auto

lemma map_exn_returns:
  "list_all (\<lambda>x. \<exists>y. f x = Inr y) xs \<Longrightarrow> \<exists>ys. map_exn f xs = Inr ys"
  by (induction xs) auto

lemma personal_score_returns:
  assumes "resume_shaped d"
  shows "\<exists>n. personal_score d = Inr n"
proof -
  from resume_shaped_PDict[OF assms] obtain kvs where d: "d = PDict kvs"
    and pi: "opt_key kvs ''personal_info'' is_dict" by blast
  have "is_dict (PDict [])" by simp
  from dict_get_opt_key[OF pi this] obtain v
    where v: "dict_get (PDict kvs) ''personal_info'' (PDict []) = Inr v" "is_dict v" by blast
  from is_dict_PDict[OF v(2)] obtain e where e: "v = PDict e" ..
  show ?thesis unfolding personal_score_def d v(1) e by simp
qed

lemma has_start_date_returns: "is_dict v \<Longrightarrow> \<exists>b. has_start_date v = Inr b"
  by (cases v) (auto simp: has_start_date_def)

lemma py_len_list: "is_list_of P v \<Longrightarrow> \<exists>n. py_len v = Inr n"
  by (cases v) auto

lemma has_descriptions_returns:
  assumes "experience_shaped v"
  shows "\<exists>b. has_descriptions v = Inr b"
proof -
  from experience_shaped_PDict[OF assms] obtain e where e: "v = PDict e"
    and r: "opt_key e ''responsibilities'' (is_list_of is_str)" by blast
  have "is_list_of is_str (PList [])" by simp
  from dict_get_opt_key[OF r this] obtain x
    where x: "dict_get (PDict e) ''responsibilities'' (PList []) = Inr x" "is_list_of is_str x"
    by blast
  from py_len_list[OF x(2)] obtain n where n: "py_len x = Inr n" ..
  show ?thesis unfolding has_descriptions_def e x(1) by (simp add: n)
qed

lemma experience_shaped_is_dict: "experience_shaped v \<Longrightarrow> is_dict v"
  by (cases v) auto

lemma experience_score_returns:
  assumes "is_list_of experience_shaped v"
  shows "\<exists>n. experience_score v = Inr n"
proof -
  from is_list_of_PList[OF assms] obtain xs where v: "v = PList xs"
    and xs: "list_all experience_shaped xs" by blast
  from xs have "list_all (\<lambda>x. \<exists>b. has_start_date x = Inr b) xs"
    by (auto simp: list_all_iff intro: has_start_date_returns experience_shaped_is_dict)
  from py_all_returns[OF this] obtain b1 where b1: "py_all has_start_date xs = Inr b1" ..
  from xs have "list_all (\<lambda>x. \<exists>b. has_descriptions x = Inr b) xs"
    by (auto simp: list_all_iff intro: has_descriptions_returns)
  from py_all_returns[OF this] obtain b2 where b2: "py_all has_descriptions xs = Inr b2" ..
  show ?thesis using v b1 b2 by (simp add: experience_score_def)
qed

lemma has_degree_and_institution_returns:
  "is_dict v \<Longrightarrow> \<exists>b. has_degree_and_institution v = Inr b"
  by (cases v) (auto simp: has_degree_and_institution_def)

lemma education_score_returns:
  assumes "resume_shaped d"
  shows "\<exists>n. education_score d = Inr n"
proof -
  from resume_shaped_PDict[OF assms] obtain kvs where d: "d = PDict kvs"
    and ed: "opt_key kvs ''education'' (is_list_of is_dict)" by blast
  have "is_list_of is_dict (PList [])" by simp
  from dict_get_opt_key[OF ed this] obtain v
    where v: "dict_get (PDict kvs) ''education'' (PList []) = Inr v" "is_list_of is_dict v"
    by blast
  from is_list_of_PList[OF v(2)] obtain xs where xs: "v = PList xs" "list_all is_dict xs"
    by blast
  from xs(2) have "list_all (\<lambda>x. \<exists>b. has_degree_and_institution x = Inr b) xs"
    by (auto simp: list_all_iff intro: has_degree_and_institution_returns)
  from py_all_returns[OF this] obtain b
    where b: "py_all has_degree_and_institution xs = Inr b" ..
  show ?thesis unfolding education_score_def d v(1) xs(1) by (simp add: b)
qed

lemma count_skills_returns:
  "list_all (\<lambda>k. opt_key s k (is_list_of is_str)) ks \<Longrightarrow> \<exists>n. count_skills (PDict s) ks = Inr n"
proof (induction ks)
  case Nil
  then show ?case by simp
next
  case (Cons k ks)
  then have k: "opt_key s k (is_list_of is_str)" by simp
  have "is_list_of is_str (PList [])" by simp
  from dict_get_opt_key[OF k this] obtain v
    where v: "dict_get (PDict s) k (PList []) = Inr v" "is_list_of is_str v" by blast
  from py_len_list[OF v(2)] obtain n where n: "py_len v = Inr n" ..
  from Cons obtain m where m: "count_skills (PDict s) ks = Inr m" by auto
  show ?case unfolding count_skills.simps v(1) by (simp add: n m)
qed

lemma skills_score_returns:
  assumes "resume_shaped d"
  shows "\<exists>n. skills_score d = Inr n"
proof -
  from resume_shaped_PDict[OF assms] obtain kvs where d: "d = PDict kvs"
    and sk: "opt_key kvs ''skills'' skills_shaped" by blast
  have "skills_shaped (PDict [])" by (simp add: skill_types_def opt_key_def)
  from dict_get_opt_key[OF sk this] obtain v
    where v: "dict_get (PDict kvs) ''skills'' (PDict []) = Inr v" "skills_shaped v" by blast
  from skills_shaped_PDict[OF v(2)] obtain s where s: "v = PDict s"
      "list_all (\<lambda>k. opt_key s k (is_list_of is_str)) skill_types" by blast
  from count_skills_returns[OF s(2)] obtain n
    where n: "count_skills (PDict s) skill_types = Inr n" ..
  show ?thesis unfolding skills_score_def d v(1) s(1) by (simp add: n)
qed

lemma join_items_returns: "list_all is_str vs \<Longrightarrow> \<exists>ss. join_items i vs = Inr ss"
proof (induction vs arbitrary: i)
  case Nil
  then show ?case by simp
next
  case (Cons v vs)
  then obtain s where "v = PStr s" by (cases v) auto
  moreover from Cons obtain ss where "join_items (Suc i) vs = Inr ss" by auto
  ultimately show ?case by simp
qed

lemma responsibilities_text_returns:
  assumes "experience_shaped v"
  shows "\<exists>t. responsibilities_text v = Inr t"
proof -
  from experience_shaped_PDict[OF assms] obtain e where e: "v = PDict e"
    and r: "opt_key e ''responsibilities'' (is_list_of is_str)" by blast
  have "is_list_of is_str (PList [])" by simp
  from dict_get_opt_key[OF r this] obtain x
    where x: "dict_get (PDict e) ''responsibilities'' (PList []) = Inr x" "is_list_of is_str x"
    by blast
  from is_list_of_PList[OF x(2)] obtain xs where xs: "x = PList xs" "list_all is_str xs"
    by blast
  from join_items_returns[OF xs(2)] obtain ss where ss: "join_items 0 xs = Inr ss" ..
  show ?thesis unfolding responsibilities_text_def e x(1) xs(1)
    by (simp add: py_join_def ss)
qed

lemma keyword_score_returns:
  assumes "is_list_of experience_shaped v"
  shows "\<exists>n. keyword_score v = Inr n"
proof -
  from is_list_of_PList[OF assms] obtain xs where v: "v = PList xs"
    and xs: "list_all experience_shaped xs" by blast
  from xs have "list_all (\<lambda>x. \<exists>t. responsibilities_text x = Inr t) xs"
    by (auto simp: list_all_iff intro: responsibilities_text_returns)
  from map_exn_returns[OF this] obtain ts where "map_exn responsibilities_text xs = Inr ts" ..
  with v show ?thesis by (simp add: keyword_score_def Let_def)
qed

lemma calculate_ats_score_returns:
  assumes "resume_shaped d"
  shows "\<exists>r. calculate_ats_score d = Inr r"
proof -
  from resume_shaped_PDict[OF assms] obtain kvs where d: "d = PDict kvs"
    and ex: "opt_key kvs ''experience'' (is_list_of experience_shaped)" by blast
  have "is_list_of experience_shaped (PList [])" by simp
  from dict_get_opt_key[OF ex this] obtain x
    where x: "dict_get d ''experience'' (PList []) = Inr x" "is_list_of experience_shaped x"
    unfolding d by blast
  from personal_score_returns[OF assms] obtain p where p: "personal_score d = Inr p" ..
  from experience_score_returns[OF x(2)] obtain e where e: "experience_score x = Inr e" ..
  from education_score_returns[OF assms] obtain ed where ed: "education_score d = Inr ed" ..
  from skills_score_returns[OF assms] obtain sk where sk: "skills_score d = Inr sk" ..
  from keyword_score_returns[OF x(2)] obtain kw where kw: "keyword_score x = Inr kw" ..
  show ?thesis
    by (simp add: calculate_ats_score_def x p e ed sk kw Let_def)
qed

lemma map_exn_py_lower:
  "list_all is_str xs \<Longrightarrow> map_exn py_lower xs = Inr (map lower (map str_of xs))"
proof (induction xs)
  case Nil
  then show ?case by simp
next
  case (Cons v vs)
  then obtain s where "v = PStr s" by (cases v) auto
  with Cons show ?case by simp
qed

lemma dict_get_field_default:
  "opt_key kvs k (is_list_of P) \<Longrightarrow>
   \<exists>xs. dict_get (PDict kvs) k (PList []) = Inr (PList xs) \<and> list_all P xs
        \<and> list_items (field kvs k) = xs"
  by (cases "map_of kvs k")
     (auto simp: opt_key_def field_def dest: is_list_of_PList)

lemma lowered_skills_shaped:
  "list_all (\<lambda>k. opt_key s k (is_list_of is_str)) ks \<Longrightarrow>
   lowered_skills (PDict s) ks =
     Inr (set (concat (map (\<lambda>k. map lower (strings_under (PDict s) k)) ks)))"
proof (induction ks)
  case Nil
  then show ?case by simp
next
  case (Cons k ks)
  then have k: "opt_key s k (is_list_of is_str)" by simp
  from dict_get_field_default[OF k] obtain xs
    where xs: "dict_get (PDict s) k (PList []) = Inr (PList xs)" "list_all is_str xs"
      "list_items (field s k) = xs" by blast
  from Cons have rest: "lowered_skills (PDict s) ks =
     Inr (set (concat (map (\<lambda>k. map lower (strings_under (PDict s) k)) ks)))" by simp
  show ?case
    unfolding lowered_skills.simps xs(1)
    by (simp add: map_exn_py_lower[OF xs(2)] rest strings_under_def xs(3))
qed

lemma responsibility_words_str:
  "responsibility_words tok stop (PStr s) =
     Inr (set (filter (\<lambda>w. 2 < length w \<and> w \<notin> stop) (tok (lower s))))"
  by (simp add: responsibility_words_def Let_def)

lemma map_exn_responsibility_words:
  "list_all is_str xs \<Longrightarrow>
   map_exn (responsibility_words tok stop) xs =
     Inr (map (\<lambda>v. set (filter (\<lambda>w. 2 < length w \<and> w \<notin> stop) (tok (lower (str_of v))))) xs)"
proof (induction xs)
  case Nil
  then show ?case by simp
next
  case (Cons v vs)
  then obtain s where "v = PStr s" by (cases v) auto
  with Cons show ?case by (simp add: responsibility_words_str)
qed

lemma entry_words_shaped:
  assumes "experience_shaped entry"
  shows "entry_words tok stop entry =
     Inr (set (concat (map (\<lambda>resp. filter (\<lambda>w. 2 < length w \<and> w \<notin> stop) (tok (lower resp)))
                          (strings_under entry ''responsibilities''))))"
proof -
  from experience_shaped_PDict[OF assms] obtain e where e: "entry = PDict e"
    and r: "opt_key e ''responsibilities'' (is_list_of is_str)" by blast
  from dict_get_field_default[OF r] obtain xs
    where xs: "dict_get (PDict e) ''responsibilities'' (PList []) = Inr (PList xs)"
      "list_all is_str xs" "list_items (field e ''responsibilities'') = xs" by blast
  show ?thesis
    unfolding entry_words_def e xs(1)
    by (simp add: map_exn_responsibility_words[OF xs(2)] strings_under_def xs(3))
qed

lemma map_exn_entry_words:
  "list_all experience_shaped xs \<Longrightarrow>
   map_exn (entry_words tok stop) xs =
     Inr (map (\<lambda>entry. set (concat (map (\<lambda>resp. filter (\<lambda>w. 2 < length w \<and> w \<notin> stop)
                                                    (tok (lower resp)))
                          (strings_under entry ''responsibilities'')))) xs)"
  by (induction xs) (simp_all add: entry_words_shaped)

lemma round_half_even_le: "x \<le> of_int k \<Longrightarrow> round_half_even x \<le> k"
proof -
  assume x: "x \<le> of_int k"
  then have f: "\<lfloor>x\<rfloor> \<le> k" by (simp add: floor_le_iff) 
  show ?thesis
  proof (cases "\<lfloor>x\<rfloor> = k")
    case True
    then have "of_int k \<le> x" by (metis of_int_floor_le)
    with x have "x = of_int k" by simp
    then show ?thesis by (simp add: round_half_even_def)
  next
    case False
    with f have "\<lfloor>x\<rfloor> + 1 \<le> k" by simp
    then show ?thesis by (auto simp: round_half_even_def Let_def)
  qed
qed

lemma py_round_le_100: "x \<le> 100 \<Longrightarrow> py_round x 2 \<le> 100"
proof -
  assume "x \<le> 100"
  then have "x * 10 ^ 2 \<le> of_int 10000" by simp
  from round_half_even_le[OF this] have "round_half_even (x * 10 ^ 2) \<le> 10000" .
  then have "(of_int (round_half_even (x * 10 ^ 2)) :: rat) \<le> 10000"
    by (metis of_int_le_iff of_int_numeral)
  then show ?thesis by (simp add: py_round_def)
qed

lemma pow2_pos: "0 < pow2 e"
  by (simp add: pow2_def)

lemma pow2_powi: "pow2 e = 2 powi e"
  unfolding pow2_def power_int_def by (simp add: inverse_eq_divide power_one_over)

lemma pow2_le_imp_le: "pow2 a \<le> pow2 b \<Longrightarrow> 0 \<le> b \<Longrightarrow> a \<le> b"
  unfolding pow2_powi by (rule power_int_le_imp_le_exp[of "2::rat"]) simp_all

lemma floor_log2_le:
  assumes "0 < x"
  shows "pow2 (floor_log2 x) \<le> x"
proof -
  obtain p q where pq: "quotient_of x = (p, q)" by (cases "quotient_of x")
  then have x: "x = of_int p / of_int q" by (rule quotient_of_div)
  from pq have q: "0 < q" by (rule quotient_of_denom_pos)
  with assms x have p: "0 < p" by (simp add: zero_less_divide_iff)
  define d where "d = bitlen p - bitlen q"
  show ?thesis
  proof (cases "pow2 d \<le> x")
    case True
    then show ?thesis by (simp add: floor_log2_def pq d_def Let_def)
  next
    case False
    from bitlen_bounds[OF p] have "2 ^ nat (bitlen p - 1) \<le> p" by simp
    then have "(of_int (2 ^ nat (bitlen p - 1)) :: rat) \<le> of_int p"
      by (simp only: of_int_le_iff)
    then have lp: "(2::rat) ^ nat (bitlen p - 1) \<le> of_int p" by simp
    from bitlen_bounds[OF q] have "q < 2 ^ nat (bitlen q)" by simp
    then have "(of_int q :: rat) < of_int (2 ^ nat (bitlen q))"
      by (simp only: of_int_less_iff)
    then have uq: "(of_int q :: rat) \<le> 2 ^ nat (bitlen q)" by simp
    have bp: "1 \<le> bitlen p" using p bitlen_eq_zero_iff[of p] bitlen_nonneg[of p] by linarith
    have bq: "0 \<le> bitlen q" by (rule bitlen_nonneg)
    have "d - 1 = (bitlen p - 1) - bitlen q" by (simp add: d_def)
    then have "pow2 (d - 1) = 2 powi ((bitlen p - 1) - bitlen q)" by (simp only: pow2_powi)
    also have "\<dots> = 2 powi (bitlen p - 1) / 2 powi (bitlen q)"
      by (rule power_int_diff) simp
    also have "\<dots> = 2 ^ nat (bitlen p - 1) / 2 ^ nat (bitlen q)"
      using bp bq unfolding power_int_def by simp
    also have "\<dots> \<le> of_int p / of_int q"
      by (rule frac_le[OF _ lp _ uq]) (use p q in simp_all)
    finally have "pow2 (d - 1) \<le> x" by (simp add: x)
    with False show ?thesis by (simp add: floor_log2_def pq d_def Let_def)
  qed
qed

lemma double_of_nonneg: "0 \<le> x \<Longrightarrow> 0 \<le> double_of x"
  by (simp add: double_of_def Let_def round_half_even_nonneg pow2_pos less_imp_le)

lemma double_of_le:
  assumes "0 < x" and "x \<le> of_int k" and "k \<le> 2 ^ 52"
  shows "double_of x \<le> of_int k"
proof -
  define e where "e = floor_log2 x - 52"
  from assms(3) have "(of_int k :: rat) \<le> of_int (2 ^ 52)" by (simp only: of_int_le_iff)
  then have "(of_int k :: rat) \<le> pow2 52" by (simp add: pow2_def)
  with floor_log2_le[OF assms(1)] assms(2) have "pow2 (floor_log2 x) \<le> pow2 52" by linarith
  then have "floor_log2 x \<le> 52" by (rule pow2_le_imp_le) simp
  then have e: "e \<le> 0" by (simp add: e_def)
  then have p: "pow2 e = 1 / 2 ^ nat (- e)"
    by (cases "e = 0") (simp_all add: pow2_def)
  have "x / pow2 e = x * 2 ^ nat (- e)" by (simp add: p)
  also have "\<dots> \<le> of_int k * 2 ^ nat (- e)" using assms(2) by simp
  also have "\<dots> = of_int (k * 2 ^ nat (- e))" by simp
  finally have "round_half_even (x / pow2 e) \<le> k * 2 ^ nat (- e)"
    by (rule round_half_even_le)
  then have "(of_int (round_half_even (x / pow2 e)) :: rat) \<le> of_int (k * 2 ^ nat (- e))"
    by (simp only: of_int_le_iff)
  then have "of_int (round_half_even (x / pow2 e)) * pow2 e \<le> of_int k"
    by (simp add: p pos_divide_le_eq)
  moreover have "double_of x = of_int (round_half_even (x / pow2 e)) * pow2 e"
    using assms(1) by (simp add: double_of_def e_def Let_def)
  ultimately show ?thesis by simp
qed

lemma double_of_zero [simp]: "double_of 0 = 0"
  by (simp add: double_of_def)

lemma double_of_range:
  assumes "0 \<le> x" and "x \<le> of_int k" and "0 \<le> k" and "k \<le> 2 ^ 52"
  shows "0 \<le> double_of x \<and> double_of x \<le> of_int k"
proof (cases "x = 0")
  case True
  with assms(3) show ?thesis by simp
next
  case False
  with assms(1) have "0 < x" by simp
  from double_of_le[OF this assms(2,4)] double_of_nonneg[OF assms(1)] show ?thesis by simp
qed

lemma match_ratio_range:
  assumes "m \<le> n" and "0 < n"
  shows "0 \<le> py_round (double_of (double_of (of_nat m / of_nat n) * 100)) 2
       \<and> py_round (double_of (double_of (of_nat m / of_nat n) * 100)) 2 \<le> 100"
proof -
  have "(of_nat m :: rat) \<le> of_nat n" using assms by simp
  then have le: "(of_nat m :: rat) / of_nat n \<le> of_int 1"
    using assms by (simp add: divide_le_eq)
  have nonneg: "0 \<le> (of_nat m :: rat) / of_nat n" by simp
  have "0 \<le> double_of (of_nat m / of_nat n)
      \<and> double_of (of_nat m / of_nat n) \<le> of_int 1"
    by (rule double_of_range[OF nonneg le]) simp_all
  then have nonneg': "0 \<le> double_of (of_nat m / of_nat n) * 100"
    and le': "double_of (of_nat m / of_nat n) * 100 \<le> of_int 100" by simp_all
  have "0 \<le> double_of (double_of (of_nat m / of_nat n) * 100)
      \<and> double_of (double_of (of_nat m / of_nat n) * 100) \<le> of_int 100"
    by (rule double_of_range[OF nonneg' le']) simp_all
  then show ?thesis by (simp add: py_round_le_100 py_round_nonneg)
qed

lemma calculate_skill_match_shaped:
  assumes "resume_shaped d"
  shows "calculate_skill_match tok stop d reqs = Inr (claimed_skill_match tok stop d reqs)"
proof -
  from resume_shaped_PDict[OF assms] obtain kvs where d: "d = PDict kvs"
    and ex: "opt_key kvs ''experience'' (is_list_of experience_shaped)"
    and sk: "opt_key kvs ''skills'' skills_shaped" by blast
  have "skills_shaped (PDict [])" by (simp add: skill_types_def opt_key_def)
  from dict_get_opt_key[OF sk this] obtain v
    where v: "dict_get (PDict kvs) ''skills'' (PDict []) = Inr v" "skills_shaped v" by blast
  from skills_shaped_PDict[OF v(2)] obtain s where s: "v = PDict s"
      "list_all (\<lambda>k. opt_key s k (is_list_of is_str)) skill_types" by blast
  have same: "\<And>k. strings_under (field kvs ''skills'') k = strings_under (PDict s) k"
    using v(1) s(1)
    by (auto simp: field_def strings_under_def split: option.splits)
  from dict_get_field_default[OF ex] obtain xs
    where xs: "dict_get (PDict kvs) ''experience'' (PList []) = Inr (PList xs)"
      "list_all experience_shaped xs" "list_items (field kvs ''experience'') = xs" by blast
  have skills: "lowered_skills (PDict s) skill_types = Inr (listed_skills d)"
    by (simp add: lowered_skills_shaped[OF s(2)] listed_skills_def d same)
  have tokens: "\<Union> (set (map (\<lambda>entry. set (concat (map (\<lambda>resp. filter (\<lambda>w. 2 < length w \<and> w \<notin> stop)
                                                    (tok (lower resp)))
                          (strings_under entry ''responsibilities'')))) xs))
       = responsibility_tokens tok stop d"
    by (simp add: responsibility_tokens_def d xs(3))
  have filt: "filter (\<lambda>req. \<exists>skill \<in> S. contains skill req) (map lower reqs)
       = map lower (filter (\<lambda>req. \<exists>skill \<in> S. contains skill (lower req)) reqs)" for S
    by (simp add: filter_map comp_def)
  show ?thesis
    unfolding calculate_skill_match_def d v(1) s(1) bind_Inr skills[unfolded d] xs(1)
      py_iter.simps map_exn_entry_words[OF xs(2)] tokens[unfolded d]
    by (simp add: Let_def claimed_skill_match_def claimed_matches_def filt d)
qed


lemma claimed_matches_append:
  "claimed_matches tok stop r (xs @ ys) = claimed_matches tok stop r xs + claimed_matches tok stop r ys"
  by (simp add: claimed_matches_def)

lemma claimed_matches_replicate:
  "claimed_matches tok stop r (replicate n x) = n * claimed_matches tok stop r [x]"
  by (induction n) (simp_all add: claimed_matches_def)

lemma skill_match_23_of_160:
  "py_round (double_of (double_of (23 / 160) * 100)) 2 = 1437 / 100"
  by code_simp

lemma sample_shaped: "resume_shaped sample_resume"
  by (simp add: sample_resume_def opt_key_def skill_types_def)















lemma pages_loop_available:
  "list_all ocr_available pages \<Longrightarrow>
   pages_loop n pages acc calls =
     (Inr (acc @ concat (map (\<lambda>p. page_text_of p @ [CHR 0x0A]) pages)),
      calls @ scanned_pages n pages)"
proof (induction pages arbitrary: n acc calls)
  case Nil
  then show ?case by simp
next
  case (Cons page rest)
  then have rest: "list_all ocr_available rest" and page: "ocr_available page" by simp_all
  show ?case
  proof (cases "needs_ocr page")
    case False
    then show ?thesis
      using Cons.IH[OF rest]
      by (simp add: needs_ocr_def page_text_of_def Let_def)
  next
    case True
    with page obtain result where r: "ocr_outcome page = Inr result"
      by (cases "ocr_outcome page") (auto simp: ocr_available_def)
    with True show ?thesis
      using Cons.IH[OF rest]
      by (simp add: needs_ocr_def page_text_of_def Let_def)
  qed
qed

lemma pages_loop_calls_prefix:
  "\<exists>more. calls @ scanned_pages n pages = snd (pages_loop n pages acc calls) @ more"
proof (induction pages arbitrary: n acc calls)
  case Nil
  then show ?case by simp
next
  case (Cons page rest)
  show ?case
  proof (cases "needs_ocr page")
    case False
    then show ?thesis using Cons.IH[of calls "Suc n"]
      by (simp add: needs_ocr_def Let_def)
  next
    case True
    show ?thesis
    proof (cases "ocr_outcome page")
      case (Inl e)
      with True show ?thesis by (simp add: needs_ocr_def Let_def)
    next
      case (Inr result)
      with True show ?thesis using Cons.IH[of "calls @ [n]" "Suc n"]
        by (simp add: needs_ocr_def Let_def)
    qed
  qed
qed

lemma ocr_calls_prefix:
  "\<exists>more. scanned_pages 0 pages = snd (extract_text_from_pdf (Inr pages)) @ more"
  using pages_loop_calls_prefix[of "[]" 0 pages "[]"]
  by (auto simp: extract_text_from_pdf_def split: prod.splits sum.splits)

lemma sample_pages_available: "list_all ocr_available sample_pages"
  by code_simp

lemma sample_pages_text:
  "clean_text (concat (map (\<lambda>p. page_text_of p @ [CHR 0x0A]) sample_pages)) =
     ''John Doe a Ib Senior Engineer at Tech Corp since 2020, leading a team of five people''"
  by code_simp

lemma sample_pages_scanned: "scanned_pages 0 sample_pages = [0]"
  by code_simp

declare attempts.simps [simp del]

lemma attempts_calls_le:
  "snd (attempts chat loads max_retries attempt json_text) \<le> max max_retries attempt"
proof (induction chat loads max_retries attempt json_text rule: attempts.induct)
  case (1 chat loads max_retries attempt json_text)
  show ?case
  proof (cases "attempt < max_retries")
    case False
    then show ?thesis by (simp add: attempts.simps)
  next
    case True
    show ?thesis
    proof (cases "attempt_step chat loads max_retries attempt json_text")
      case (Inl outcome)
      with True show ?thesis by (simp add: attempts.simps[of _ _ _ attempt])
    next
      case (Inr jt)
      from "1.IH"[OF True Inr] True Inr show ?thesis
        by (simp add: attempts.simps[of _ _ _ attempt])
    qed
  qed
qed

lemma fails_parsing_step:
  assumes "fails_parsing chat loads attempt"
  obtains content where "chat attempt = Inr content"
    and "attempt_step chat loads max_retries attempt json_text =
           (if Suc attempt = max_retries
            then Inl (Inr (fix_json_errors loads (clean_json_response content)))
            else Inr (Some (clean_json_response content)))"
proof -
  from assms obtain content e where c: "chat attempt = Inr content"
    and l: "loads (clean_json_response content) = Inl e" and e: "exn_cls e = JSONDecodeError"
    by (auto simp: fails_parsing_def split: sum.splits)
  have "attempt_step chat loads max_retries attempt json_text =
           (if Suc attempt = max_retries
            then Inl (Inr (fix_json_errors loads (clean_json_response content)))
            else Inr (Some (clean_json_response content)))"
    by (simp add: attempt_step_def c l e on_exception_def Let_def)
  with c show ?thesis by (rule that)
qed

lemma attempts_all_fail:
  "attempt < max_retries \<Longrightarrow>
   (\<forall>i. attempt \<le> i \<and> i < max_retries \<longrightarrow> fails_parsing chat loads i) \<Longrightarrow>
   chat (max_retries - 1) = Inr last_reply \<Longrightarrow>
   attempts chat loads max_retries attempt json_text =
     (Inr (fix_json_errors loads (clean_json_response last_reply)), max_retries)"
proof (induction chat loads max_retries attempt json_text rule: attempts.induct)
  case (1 chat loads max_retries attempt json_text)
  from "1.prems" have f: "fails_parsing chat loads attempt" by simp
  from f obtain content where c: "chat attempt = Inr content"
    and step: "attempt_step chat loads max_retries attempt json_text =
           (if Suc attempt = max_retries
            then Inl (Inr (fix_json_errors loads (clean_json_response content)))
            else Inr (Some (clean_json_response content)))"
    by (rule fails_parsing_step)
  show ?case
  proof (cases "Suc attempt = max_retries")
    case True
    then have "max_retries - 1 = attempt" by simp
    with c "1.prems"(3) have "content = last_reply" by simp
    with True step "1.prems"(1) show ?thesis
      by (simp add: attempts.simps[of _ _ _ attempt])
  next
    case False
    with "1.prems" have lt: "Suc attempt < max_retries" by simp
    from step False have s: "attempt_step chat loads max_retries attempt json_text =
        Inr (Some (clean_json_response content))" by simp
    from "1.prems"(2) have all: "\<forall>i. Suc attempt \<le> i \<and> i < max_retries
        \<longrightarrow> fails_parsing chat loads i" by simp
    have "attempts chat loads max_retries (Suc attempt) (Some (clean_json_response content)) =
           (Inr (fix_json_errors loads (clean_json_response last_reply)), max_retries)"
      by (rule "1.IH"[OF "1.prems"(1) s lt all "1.prems"(3)])
    with s "1.prems"(1) show ?thesis
      by (simp add: attempts.simps[of _ _ _ attempt])
  qed
qed

lemma fix_json_errors_placeholder:
  "isl (loads (repair_json t)) \<Longrightarrow> fix_json_errors loads t = placeholder"
  by (cases "loads (repair_json t)") (simp_all add: fix_json_errors_def)

lemma placeholder_minimal: "is_minimal_placeholder placeholder"
  by (simp add: is_minimal_placeholder_def placeholder_def field_def skill_types_def)

lemma extract_with_llm_calls: "snd (extract_with_llm chat loads max_retries) \<le> max_retries"
  using attempts_calls_le[of chat loads max_retries 0 None]
  by (simp add: extract_with_llm_def)

lemma extract_with_llm_no_attempt: "extract_with_llm chat loads 0 = (Inr PNone, 0)"
  by (simp add: extract_with_llm_def attempts.simps)

lemma drop_trailing_commas_no_comma:
  "CHR '','' \<notin> set xs \<Longrightarrow>
   drop_trailing_commas closer (xs @ ys) = xs @ drop_trailing_commas closer ys"
  by (induction xs) auto

lemma drop_trailing_commas_comma:
  "drop_trailing_commas closer (CHR '','' # cs) =
     (case dropWhile is_space cs of
        [] \<Rightarrow> CHR '','' # drop_trailing_commas closer cs
      | d # ds \<Rightarrow>
          if d = closer then closer # drop_trailing_commas closer ds
          else CHR '','' # drop_trailing_commas closer cs)"
  by simp

lemma pieces_shape:
  "\<exists>first rest. pieces sep s = first # rest \<and> s = first @ concat (map (\<lambda>p. sep # p) rest)
     \<and> sep \<notin> set first \<and> (\<forall>p \<in> set rest. sep \<notin> set p)"
proof (induction s)
  case Nil
  show ?case by simp
next
  case (Cons c cs)
  then obtain first rest where p: "pieces sep cs = first # rest"
    and cs: "cs = first @ concat (map (\<lambda>p. sep # p) rest)"
    and f: "sep \<notin> set first" and r: "\<forall>p \<in> set rest. sep \<notin> set p" by blast
  show ?case
  proof (cases "c = sep")
    case True
    with p cs f r show ?thesis by simp
  next
    case False
    with p cs f r show ?thesis by simp
  qed
qed

lemma drop_trailing_commas_pieces:
  assumes "closer \<noteq> CHR '',''" and "\<forall>p \<in> set rest. CHR '','' \<notin> set p"
  shows "drop_trailing_commas closer (concat (map (\<lambda>p. CHR '','' # p) rest))
         = concat (map (after_comma closer) rest)"
  using assms(2)
proof (induction rest)
  case Nil
  show ?case by simp
next
  case (Cons p ps)
  let ?g = "concat (map (\<lambda>p. CHR '','' # p) ps)"
  from Cons.prems have p: "CHR '','' \<notin> set p" and ps: "\<forall>p \<in> set ps. CHR '','' \<notin> set p"
    by simp_all
  from Cons.IH[OF ps] have IH: "drop_trailing_commas closer ?g = concat (map (after_comma closer) ps)" .
  have keep: "drop_trailing_commas closer (p @ ?g) = p @ drop_trailing_commas closer ?g"
    by (rule drop_trailing_commas_no_comma[OF p])
  show ?case
  proof (cases "dropWhile is_space p")
    case Nil
    then have all: "\<forall>x \<in> set p. is_space x" by (simp add: dropWhile_eq_Nil_conv)
    then have d: "dropWhile is_space (p @ ?g) = dropWhile is_space ?g" by simp
    have "dropWhile is_space ?g = [] \<or> (\<exists>t. dropWhile is_space ?g = CHR '','' # t)"
      by (cases ps) (simp_all add: is_space_def)
    then have "drop_trailing_commas closer (CHR '','' # p @ ?g) =
         CHR '','' # drop_trailing_commas closer (p @ ?g)"
    proof
      assume "dropWhile is_space ?g = []"
      then show ?thesis by (simp only: drop_trailing_commas_comma d list.case)
    next
      assume "\<exists>t. dropWhile is_space ?g = CHR '','' # t"
      then obtain t where "dropWhile is_space ?g = CHR '','' # t" ..
      then show ?thesis
        using assms(1) by (simp only: drop_trailing_commas_comma d list.case) simp
    qed
    moreover have "after_comma closer p = CHR '','' # p"
      using Nil by (simp add: after_comma_def)
    ultimately show ?thesis using keep IH by simp
  next
    case (Cons d ds)
    then have "d \<in> set p" and nd: "\<not> is_space d"
      by (metis dropWhile_eq_Cons_conv in_set_conv_decomp, metis dropWhile_eq_Cons_conv)
    have dd: "dropWhile is_space (p @ ?g) = d # ds @ ?g"
      using Cons by (metis append_Cons dropWhile_append1 dropWhile_eq_Cons_conv in_set_conv_decomp)
    have "set ds \<subseteq> set p" using Cons by (metis set_dropWhileD set_subset_Cons subset_code(1) subset_trans list.set_intros(2))
    with p have ds: "CHR '','' \<notin> set ds" by blast
    show ?thesis
    proof (cases "d = closer")
      case True
      have "drop_trailing_commas closer (CHR '','' # p @ ?g) =
           closer # drop_trailing_commas closer (ds @ ?g)"
        using True by (simp only: drop_trailing_commas_comma dd list.case) simp
      also have "\<dots> = closer # ds @ drop_trailing_commas closer ?g"
        by (simp add: drop_trailing_commas_no_comma[OF ds])
      finally have "drop_trailing_commas closer (CHR '','' # p @ ?g) =
           closer # ds @ drop_trailing_commas closer ?g" .
      moreover have "after_comma closer p = closer # ds"
        using Cons True by (simp add: after_comma_def)
      ultimately show ?thesis using IH by simp
    next
      case False
      have "drop_trailing_commas closer (CHR '','' # p @ ?g) =
           CHR '','' # drop_trailing_commas closer (p @ ?g)"
        using False by (simp only: drop_trailing_commas_comma dd list.case) simp
      moreover have "after_comma closer p = CHR '','' # p"
        using Cons False by (simp add: after_comma_def)
      ultimately show ?thesis using keep IH by simp
    qed
  qed
qed

lemma drop_trailing_commas_claimed:
  assumes "closer \<noteq> CHR '',''"
  shows "drop_trailing_commas closer s = commas_removed closer s"
proof -
  from pieces_shape[of "CHR '',''" s] obtain first rest
    where p: "pieces CHR '','' s = first # rest"
      and s: "s = first @ concat (map (\<lambda>p. CHR '','' # p) rest)"
      and f: "CHR '','' \<notin> set first" and r: "\<forall>p \<in> set rest. CHR '','' \<notin> set p" by blast
  have "drop_trailing_commas closer s =
        first @ drop_trailing_commas closer (concat (map (\<lambda>p. CHR '','' # p) rest))"
    by (subst s) (rule drop_trailing_commas_no_comma[OF f])
  also have "\<dots> = first @ concat (map (after_comma closer) rest)"
    by (simp only: drop_trailing_commas_pieces[OF assms r])
  finally show ?thesis by (simp add: commas_removed_def p)
qed

lemma repair_json_claimed: "repair_json t = claimed_repair t"
  by (simp add: repair_json_def claimed_repair_def quotes_replaced_def replace_char_def
        drop_trailing_commas_claimed)


lemma sample_fails: "\<forall>i < 3. fails_parsing sample_chat sample_loads i"
proof -
  have "fails_parsing sample_chat sample_loads 0"
    and "fails_parsing sample_chat sample_loads 1"
    and "fails_parsing sample_chat sample_loads 2"
    by code_simp+
  moreover have "i = 0 \<or> i = 1 \<or> i = 2" if "i < 3" for i :: nat
    using that by arith
  ultimately show ?thesis by blast
qed

lemma sample_refusal_fails: "\<forall>i < 3. fails_parsing sample_refusal sample_loads i"
proof -
  have "fails_parsing sample_refusal sample_loads i" for i
    unfolding fails_parsing_def sample_refusal_def by code_simp
  then show ?thesis by simp
qed

lemma sample_cleaned:
  "clean_json_response sample_reply = ''{'' @ quoted ''name'' @ '': '' @ quoted ''John'' @ '', }''"
  by code_simp

lemma sample_repaired:
  "sample_loads (claimed_repair (clean_json_response sample_reply))
     = Inr (PDict [(''name'', PStr ''John'')])"
  by code_simp

lemma sample_refusal_repaired:
  "sample_loads (claimed_repair (clean_json_response ''I cannot read this resume.''))
     = Inl (Exn JSONDecodeError ''Expecting property name enclosed in double quotes'')"
  by code_simp

section \<open>The claims\<close>

text \<open>
  Claim C5. For every list of experience entries, \<^verbatim>\<open>calculate_experience_years\<close>
  returns \<^verbatim>\<open>round(total_months / 12, 1)\<close>, where \<^verbatim>\<open>total_months\<close> is the sum, over
  the entries whose start date parses and whose end date either parses or is
  'present', 'current' or 'now' in any case (then taken as the current date), of
  \<^verbatim>\<open>max(0, (end.year - start.year) * 12 + (end.month - start.month))\<close>; every other
  entry contributes 0, and the result is never negative. The entries are dictionaries
  with values of any kind. On the six entries of \<open>sample_entries\<close>, in November 2026,
  the months are 82 (January 2020 to now), 36 (2015 to 2018) and four times 0, and the
  result is 9.8.
\<close>

theorem calculate_experience_years_claim:
  "calculate_experience_years now dateutil (PList (map PDict entries)) =
     Inr (py_round (of_int (claimed_total_months now dateutil entries) / 12) 1)
   \<and> 0 \<le> claimed_total_months now dateutil entries
   \<and> 0 \<le> py_round (of_int (claimed_total_months now dateutil entries) / 12) 1"
  by (simp add: calculate_experience_years_def sum_months_entries
        claimed_total_months_nonneg py_round_nonneg)

theorem calculate_experience_years_claim_witness:
  "calculate_experience_years
     \<lparr>year = 2026, month = 11, day = 3, hour = 9, minute = 0, second = 0\<rparr>
     sample_dateutil (PList (map PDict sample_entries)) = Inr (49 / 5)
   \<and> claimed_total_months
       \<lparr>year = 2026, month = 11, day = 3, hour = 9, minute = 0, second = 0\<rparr>
       sample_dateutil sample_entries = 82 + 36"
proof -
  have t: "claimed_total_months
       \<lparr>year = 2026, month = 11, day = 3, hour = 9, minute = 0, second = 0\<rparr>
       sample_dateutil sample_entries = 118"
    by code_simp
  have r: "py_round (118 / 12) 1 = 49 / 5"
    by code_simp
  from calculate_experience_years_claim[of
      "\<lparr>year = 2026, month = 11, day = 3, hour = 9, minute = 0, second = 0\<rparr>"
      sample_dateutil sample_entries]
  show ?thesis
    unfolding t using r by simp
qed

text \<open>
  Claim C3. For every input dictionary laid out as a resume, \<^verbatim>\<open>calculate_ats_score\<close>
  returns a dictionary in which \<^verbatim>\<open>total_score\<close> is the sum of the five breakdown
  components, \<^verbatim>\<open>max_score\<close> is 100, \<^verbatim>\<open>percentage\<close> is
  \<^verbatim>\<open>round(total_score / 100 * 100, 2)\<close> and so equals \<^verbatim>\<open>total_score\<close>, and
  \<open>0 \<le> total_score \<le> 100\<close>. (Lemma \<open>calculate_ats_score_sound\<close> gives the same
  facts for whatever dictionary the call returns on.)
\<close>

theorem calculate_ats_score_claim:
  assumes "resume_shaped d"
  shows "\<exists>r. calculate_ats_score d = Inr r \<and> ats_score_ok r"
  using calculate_ats_score_returns[OF assms] calculate_ats_score_sound by blast

theorem calculate_ats_score_claim_witness:
  "resume_shaped
     (PDict [(''personal_info'', PDict [(''name'', PStr ''John Doe''), (''email'', PStr ''j@d'')]),
             (''experience'',
                PList [PDict [(''position'', PStr ''Lead''), (''start_date'', PStr ''2020''),
                              (''responsibilities'', PList [PStr ''Led 5+'', PStr ''x'']) ]]),
             (''skills'', PDict [(''technical'', PList [PStr ''Python''])])])
   \<and> (\<exists>r. calculate_ats_score
     (PDict [(''personal_info'', PDict [(''name'', PStr ''John Doe''), (''email'', PStr ''j@d'')]),
             (''experience'',
                PList [PDict [(''position'', PStr ''Lead''), (''start_date'', PStr ''2020''),
                              (''responsibilities'', PList [PStr ''Led 5+'', PStr ''x'']) ]]),
             (''skills'', PDict [(''technical'', PList [PStr ''Python''])])]) = Inr r
        \<and> ats_score_ok r)"
proof -
  have shaped: "resume_shaped
     (PDict [(''personal_info'', PDict [(''name'', PStr ''John Doe''), (''email'', PStr ''j@d'')]),
             (''experience'',
                PList [PDict [(''position'', PStr ''Lead''), (''start_date'', PStr ''2020''),
                              (''responsibilities'', PList [PStr ''Led 5+'', PStr ''x'']) ]]),
             (''skills'', PDict [(''technical'', PList [PStr ''Python''])])])"
    by (simp add: opt_key_def skill_types_def)
  from calculate_ats_score_claim[OF shaped] shaped show ?thesis by blast
qed

text \<open>
  Claim C8. For every resume dictionary and list of job requirements,
  \<^verbatim>\<open>calculate_skill_match\<close> returns 0 when the list is empty and otherwise
  \<^verbatim>\<open>round(m / n * 100, 2)\<close>, computed on doubles as Python computes it (for 23
  requirements of 160 that is 14.37, where the exact quotient 14.375 would round to
  14.38), \<open>n\<close> being the number of requirements and \<open>m\<close> the
  number of them whose lowercased text occurs in at least one skill of the resume (the
  lowercased entries of the four skill categories and the tokens of the lowercased
  responsibilities that are longer than 2 characters and no stop words); the result
  lies between 0 and 100.
\<close>

theorem calculate_skill_match_claim:
  assumes "resume_shaped resume"
  shows "calculate_skill_match word_tokenize stop_words resume job_requirements =
           Inr (if job_requirements = [] then 0
                else py_round
                  (double_of
                     (double_of
                        (of_nat (claimed_matches word_tokenize stop_words resume job_requirements)
                         / of_nat (length job_requirements))
                      * 100)) 2)
         \<and> 0 \<le> claimed_skill_match word_tokenize stop_words resume job_requirements
         \<and> claimed_skill_match word_tokenize stop_words resume job_requirements \<le> 100"
proof -
  have "claimed_matches word_tokenize stop_words resume job_requirements
          \<le> length job_requirements"
    by (simp add: claimed_matches_def)
  then have "0 \<le> claimed_skill_match word_tokenize stop_words resume job_requirements
      \<and> claimed_skill_match word_tokenize stop_words resume job_requirements \<le> 100"
    using match_ratio_range[of "claimed_matches word_tokenize stop_words resume job_requirements"
        "length job_requirements"]
    by (cases "job_requirements = []") (simp_all add: claimed_skill_match_def)
  with calculate_skill_match_shaped[OF assms] show ?thesis
    by (simp add: claimed_skill_match_def)
qed

theorem calculate_skill_match_claim_witness:
  "resume_shaped sample_resume
   \<and> calculate_skill_match (\<lambda>s. [s]) {} sample_resume
         (replicate 23 ''PYTHON'' @ replicate 137 ''rust'') = Inr (1437 / 100)
   \<and> 0 \<le> claimed_skill_match (\<lambda>s. [s]) {} sample_resume
         (replicate 23 ''PYTHON'' @ replicate 137 ''rust'')
   \<and> claimed_skill_match (\<lambda>s. [s]) {} sample_resume
         (replicate 23 ''PYTHON'' @ replicate 137 ''rust'') \<le> 100"
proof -
  have "claimed_matches (\<lambda>s. [s]) {} sample_resume [''PYTHON''] = 1"
    and "claimed_matches (\<lambda>s. [s]) {} sample_resume [''rust''] = 0"
    by code_simp+
  then have m: "claimed_matches (\<lambda>s. [s]) {} sample_resume
             (replicate 23 ''PYTHON'' @ replicate 137 ''rust'') = 23"
    by (simp only: claimed_matches_append claimed_matches_replicate)
  have n: "length (replicate 23 ''PYTHON'' @ replicate 137 ''rust'') = 160"
    by simp
  have e: "replicate 23 ''PYTHON'' @ replicate 137 ''rust'' \<noteq> []"
    by simp
  have r: "py_round (double_of (double_of (of_nat 23 / of_nat 160) * 100)) 2 = 1437 / 100"
    using skill_match_23_of_160 by simp
  from calculate_skill_match_claim[OF sample_shaped, of "\<lambda>s. [s]" "{}"
      "replicate 23 ''PYTHON'' @ replicate 137 ''rust''"]
  show ?thesis
    by (simp only: m n r e sample_shaped if_False simp_thms)
qed






text \<open>
  Claim C4. \<^verbatim>\<open>extract_text_from_pdf\<close> goes through the pages in page order; of each
  page it first takes the text layer, and it calls the OCR engine exactly for the pages
  whose stripped text layer has fewer than 50 characters, appending the recognised
  words; the returned string is the cleaned concatenation of the texts of all pages,
  each followed by a newline. (Where the OCR engine raises on a page that needs it the
  function raises; \<open>ocr_calls_prefix\<close> shows that the calls made until then are still
  the pages that need it, in order.)
\<close>

theorem extract_text_from_pdf_claim:
  assumes "list_all ocr_available pages"
  shows "extract_text_from_pdf (Inr pages) =
           (Inr (clean_text (concat (map (\<lambda>p. page_text_of p @ [CHR 0x0A]) pages))),
            scanned_pages 0 pages)"
  by (simp add: extract_text_from_pdf_def pages_loop_available[OF assms])

theorem extract_text_from_pdf_claim_witness:
  "list_all ocr_available sample_pages
   \<and> extract_text_from_pdf (Inr sample_pages) =
       (Inr ''John Doe a Ib Senior Engineer at Tech Corp since 2020, leading a team of five people'',
        [0])"
  using extract_text_from_pdf_claim[OF sample_pages_available] sample_pages_available
  by (simp only: sample_pages_text sample_pages_scanned simp_thms)

text \<open>
  Claim C1. For every sequence of replies of the model and whatever happens,
  \<^verbatim>\<open>extract_with_llm\<close> makes at most \<^verbatim>\<open>max_retries\<close> attempts. If every attempt
  fails JSON parsing, it returns, without raising, what \<^verbatim>\<open>json.loads\<close> makes of the
  last cleaned reply after the repair (\<open>claimed_repair\<close>: every single quote replaced
  by a double quote, then every comma removed that only white space separates from a
  closing brace, then from a closing bracket, with that white space), and if the
  repaired text fails to parse too, the minimal placeholder: \<^verbatim>\<open>personal_info.name\<close>
  is 'Error parsing resume', and \<^verbatim>\<open>experience\<close>, \<^verbatim>\<open>education\<close> and the four
  skill lists are empty. There is a last reply only when there is an attempt:
  \<open>0 < max_retries\<close> (3 unless the caller says otherwise; with 0 the loop makes no
  turn and the function returns \<^verbatim>\<open>None\<close>, lemma \<open>extract_with_llm_no_attempt\<close>).
\<close>

theorem extract_with_llm_claim:
  "snd (extract_with_llm chat loads max_retries) \<le> max_retries
   \<and> (0 < max_retries \<and> (\<forall>i < max_retries. fails_parsing chat loads i)
        \<and> chat (max_retries - 1) = Inr last_reply
      \<longrightarrow> fst (extract_with_llm chat loads max_retries) =
            Inr (case loads (claimed_repair (clean_json_response last_reply)) of
                   Inr data \<Rightarrow> data
                 | Inl e \<Rightarrow> placeholder)
          \<and> is_minimal_placeholder placeholder)"
proof (intro conjI impI)
  show "snd (extract_with_llm chat loads max_retries) \<le> max_retries"
    by (rule extract_with_llm_calls)
next
  assume a: "0 < max_retries \<and> (\<forall>i < max_retries. fails_parsing chat loads i)
        \<and> chat (max_retries - 1) = Inr last_reply"
  then have all: "\<forall>i. 0 \<le> i \<and> i < max_retries \<longrightarrow> fails_parsing chat loads i"
    by simp
  from a have pos: "0 < max_retries" and last: "chat (max_retries - 1) = Inr last_reply"
    by simp_all
  have "extract_with_llm chat loads max_retries =
      (Inr (fix_json_errors loads (clean_json_response last_reply)), max_retries)"
    unfolding extract_with_llm_def by (rule attempts_all_fail[OF pos all last])
  then show "fst (extract_with_llm chat loads max_retries) =
            Inr (case loads (claimed_repair (clean_json_response last_reply)) of
                   Inr data \<Rightarrow> data
                 | Inl e \<Rightarrow> placeholder)"
    by (simp add: fix_json_errors_def repair_json_claimed split: sum.splits)
next
  show "is_minimal_placeholder placeholder" by (rule placeholder_minimal)
qed

theorem extract_with_llm_claim_witness:
  "fails_parsing sample_chat sample_loads 0 \<and> fails_parsing sample_chat sample_loads 1
   \<and> fails_parsing sample_chat sample_loads 2
   \<and> snd (extract_with_llm sample_chat sample_loads 3) \<le> 3
   \<and> fst (extract_with_llm sample_chat sample_loads 3) = Inr (PDict [(''name'', PStr ''John'')])
   \<and> fst (extract_with_llm sample_refusal sample_loads 3) = Inr placeholder"
proof -
  have l: "sample_chat (3 - 1) = Inr sample_reply"
    by (simp add: sample_chat_def)
  have l': "sample_refusal (3 - 1) = Inr ''I cannot read this resume.''"
    by (simp add: sample_refusal_def)
  from extract_with_llm_claim[of sample_chat sample_loads 3 sample_reply]
    sample_fails l
  have 1: "snd (extract_with_llm sample_chat sample_loads 3) \<le> 3
      \<and> fst (extract_with_llm sample_chat sample_loads 3) = Inr (PDict [(''name'', PStr ''John'')])"
    by (simp add: sample_repaired)
  from extract_with_llm_claim[of sample_refusal sample_loads 3 "''I cannot read this resume.''"]
    sample_refusal_fails l'
  have 2: "fst (extract_with_llm sample_refusal sample_loads 3) = Inr placeholder"
    by (simp add: sample_refusal_repaired)
  from sample_fails have "fails_parsing sample_chat sample_loads 0
      \<and> fails_parsing sample_chat sample_loads 1 \<and> fails_parsing sample_chat sample_loads 2"
    by simp
  with 1 2 show ?thesis by simp
qed

end
